theory Spec2Isabelle
  imports Main "HOL-Library.AList"
begin

text \<open>
  A model of the three classes of dynamo-repository: \<open>DynamoRepository\<close> (point reads and
  the paginated reader behind \<open>search\<close>), \<open>CachedDynamoRepository\<close> (the cache of promises
  by hash and range value) and \<open>ManagedDynamoRepository\<close> (the tracked table and \<open>flush\<close>).
  The reader is modelled with a store that answers at once, since its pulls are awaited one
  after the other. The cache and the tracker are modelled as a state machine: a method
  runs up to its \<open>await\<close>, leaving its promise pending and its call in the log of the
  document client, and goes on when the store answers that call.
\<close>

section \<open>Attribute values, items and keys\<close>

text \<open>
  A value of an attribute as the repository sees it. Strings, numbers, booleans, null and
  undefined are primitives; any other value (a map, a list, a buffer, a set) is an object,
  known by its reference only. Numbers are integers here (no NaN).
\<close>

datatype jsval = Str string | Num int | Bool bool | Null | Undefined | ObjRef nat


text \<open>
  \<open>DocumentClient.Key\<close> and \<open>DocumentClient.AttributeMap\<close>: an object, as the list of
  its own properties in insertion order.
\<close>

type_synonym attrmap = "(string \<times> jsval) list"


text \<open>\<open>o[k]\<close>: reading a property that the object lacks gives undefined.\<close>

definition attr :: "attrmap \<Rightarrow> string \<Rightarrow> jsval" where
  "attr obj k = (case map_of obj k of None \<Rightarrow> Undefined | Some v \<Rightarrow> v)"

text \<open>
  \<open>o[k]\<close> where the property name \<open>k\<close> may itself be undefined (a table without a range
  key): JavaScript then reads the property called \<open>"undefined"\<close>.
\<close>

fun attr_opt :: "attrmap \<Rightarrow> string option \<Rightarrow> jsval" where
  "attr_opt obj None = attr obj ''undefined''"
| "attr_opt obj (Some k) = attr obj k"

text \<open>\<open>o[k] = v\<close>.\<close>

definition set_attr :: "string \<Rightarrow> jsval \<Rightarrow> attrmap \<Rightarrow> attrmap" where
  "set_attr k v obj = AList.update k v obj"

subsection \<open>repository.class.ts: sameKey and uniqueKeys\<close>




subsection \<open>get-entity-key.ts\<close>

text \<open>An element of \<open>DocumentClient.KeySchema\<close>.\<close>

record key_schema_element =
  AttributeName :: string
  KeyType :: string

type_synonym key_schema = "key_schema_element list"

datatype err = TypeError | StoreError string

text \<open>
  \<^verbatim>\<open>const hashKey = keySchema.find((k) => k.KeyType === hash).AttributeName;
  const rangeSchema = keySchema.find((k) => k.KeyType === range);
  const rangeKey = rangeSchema ? rangeSchema.AttributeName : undefined;\<close>
  With no HASH element \<open>find\<close> gives undefined and reading \<open>AttributeName\<close> throws a
  TypeError.
\<close>

definition schema_hashKey :: "key_schema \<Rightarrow> err + string" where
  "schema_hashKey keySchema =
     (case find (\<lambda>k. KeyType k = ''HASH'') keySchema of
        None \<Rightarrow> Inl TypeError
      | Some k \<Rightarrow> Inr (AttributeName k))"

definition schema_rangeKey :: "key_schema \<Rightarrow> string option" where
  "schema_rangeKey keySchema = map_option AttributeName (find (\<lambda>k. KeyType k = ''RANGE'') keySchema)"

text \<open>
  \<^verbatim>\<open>const key = {};
  key[hashKey] = entity[hashKey];
  if (rangeKey) { key[rangeKey] = entity[rangeKey]; }
  return key;\<close>
  The test \<open>if (rangeKey)\<close> is one of truthiness: an empty attribute name counts as
  no range key.
\<close>

definition getEntityKey :: "key_schema \<Rightarrow> attrmap \<Rightarrow> err + attrmap" where
  "getEntityKey keySchema entity =
     (case schema_hashKey keySchema of
        Inl e \<Rightarrow> Inl e
      | Inr hashKey \<Rightarrow>
          (let key = set_attr hashKey (attr entity hashKey) []
           in case schema_rangeKey keySchema of
                None \<Rightarrow> Inr key
              | Some rangeKey \<Rightarrow>
                  if rangeKey \<noteq> [] then Inr (set_attr rangeKey (attr entity rangeKey) key)
                  else Inr key))"

section \<open>The table configuration and the repository object\<close>

text \<open>
  \<open>ITableConfig\<close>, after the constructor has filled in the default \<open>marshal\<close> and
  \<open>unMarshal\<close>. \<open>secondaryIndexes\<close> is optional; an index is described by its
  \<open>ProjectionType\<close> alone.
\<close>

record 'e table_config =
  tableName :: string
  keySchema :: key_schema
  secondaryIndexes :: "(string \<times> string) list option"
  marshal :: "'e \<Rightarrow> attrmap"
  unMarshal :: "attrmap \<Rightarrow> 'e"

text \<open>
  The fields the three classes keep: the configuration and the attribute names that the
  constructors read off the key schema. \<open>JSON_stringify\<close> is the runtime's
  \<open>JSON.stringify\<close> on entities, which the tracker uses for its snapshots.
\<close>

record 'e repository =
  config :: "'e table_config"
  hashKey :: string
  rangeKey :: "string option"
  JSON_stringify :: "'e \<Rightarrow> string"

text \<open>
  The constructor: \<open>keySchema.find((k) => k.KeyType === hash).AttributeName\<close> throws when the
  schema has no HASH element.
\<close>

definition new_repository :: "'e table_config \<Rightarrow> ('e \<Rightarrow> string) \<Rightarrow> err + 'e repository" where
  "new_repository cfg stringify =
     (case schema_hashKey (keySchema cfg) of
        Inl e \<Rightarrow> Inl e
      | Inr h \<Rightarrow>
          Inr \<lparr>config = cfg, hashKey = h, rangeKey = schema_rangeKey (keySchema cfg),
               JSON_stringify = stringify\<rparr>)"

section \<open>repository.class.ts: the paginated reader\<close>

text \<open>\<open>ISearchInput\<close>.\<close>

record search_input =
  IndexName :: "string option"
  Select :: "string option"
  Limit :: "nat option"
  ScanIndexForward :: "bool option"
  ExclusiveStartKey :: "attrmap option"
  FilterExpression :: "string option"
  KeyConditionExpression :: "string option"
  ExpressionAttributeNames :: "(string \<times> string) list option"
  ExpressionAttributeValues :: "attrmap option"

text \<open>A page of a query or a scan.\<close>

record dc_page =
  Items :: "attrmap list"
  LastEvaluatedKey :: "attrmap option"

text \<open>
  The document client as the reader sees it while one search runs: each request is
  answered with a page or with an error, a point read with the item, with nothing, or with
  an error, a batch read with the items found for the requested keys or with an error. The
  first argument is the table name.
\<close>

record document_client =
  dc_query :: "string \<Rightarrow> search_input \<Rightarrow> err + dc_page"
  dc_scan :: "string \<Rightarrow> search_input \<Rightarrow> err + dc_page"
  dc_get :: "string \<Rightarrow> attrmap \<Rightarrow> err + attrmap option"
  dc_batchGet :: "string \<Rightarrow> attrmap list \<Rightarrow> err + attrmap list"

text \<open>
  The variables that the two closures of \<open>search\<close> keep: \<open>batch\<close> and \<open>sourceIsEmpty\<close> of
  the generator, \<open>lastEvaluatedKey\<close> and the second \<open>sourceIsEmpty\<close> of the block generator.
\<close>

record search_state =
  batch :: "attrmap list"
  sourceIsEmpty :: bool
  lastEvaluatedKey :: "attrmap option"
  blockSourceIsEmpty :: bool

definition isQueryInput :: "search_input \<Rightarrow> bool" where
  "isQueryInput input = (KeyConditionExpression input \<noteq> None)"

definition search_start :: "search_input \<Rightarrow> search_state" where
  "search_start input =
     \<lparr>batch = [], sourceIsEmpty = False,
      lastEvaluatedKey = ExclusiveStartKey input, blockSourceIsEmpty = False\<rparr>"

text \<open>
  The closure that \<open>buildScanBlockGenerator\<close> returns. It gives undefined (\<open>Inr None\<close>) once
  the source is known to be empty.
\<close>

definition getNextBlock ::
  "'e repository \<Rightarrow> document_client \<Rightarrow> search_input \<Rightarrow> search_state
     \<Rightarrow> (err + dc_page option) \<times> search_state" where
  "getNextBlock r dc input g =
     (if blockSourceIsEmpty g then (Inr None, g)
      else
        let blockInput = input\<lparr>ExclusiveStartKey := lastEvaluatedKey g\<rparr>;
            answer = (if isQueryInput input then dc_query dc (tableName (config r)) blockInput
                      else dc_scan dc (tableName (config r)) blockInput)
        in case answer of
             Inl e \<Rightarrow> (Inl e, g)
           | Inr response \<Rightarrow>
               (Inr (Some response),
                g\<lparr>lastEvaluatedKey := LastEvaluatedKey response,
                  blockSourceIsEmpty :=
                    (if LastEvaluatedKey response = None then True else blockSourceIsEmpty g)\<rparr>))"

text \<open>
  \<^verbatim>\<open>while (batch.length === 0 && sourceIsEmpty === false) {
      const dynamoResponse = await getNextBlock();
      batch = dynamoResponse.Items;
      sourceIsEmpty = dynamoResponse.LastEvaluatedKey === undefined; }\<close>
  The loop runs for as long as the store answers with empty pages that carry a cursor;
  \<open>None\<close> is the loop that never ends. The first component of the result is the error that
  left the loop, if any.
\<close>

partial_function (option) fetchLoop ::
  "'e repository \<Rightarrow> document_client \<Rightarrow> search_input \<Rightarrow> search_state
     \<Rightarrow> (err option \<times> search_state) option" where
  "fetchLoop r dc input g =
     (if batch g = [] \<and> sourceIsEmpty g = False then
        (case getNextBlock r dc input g of
           (Inl e, g') \<Rightarrow> Some (Some e, g')
         | (Inr None, g') \<Rightarrow> Some (Some TypeError, g')
         | (Inr (Some dynamoResponse), g') \<Rightarrow>
             fetchLoop r dc input
               (g'\<lparr>batch := Items dynamoResponse,
                   sourceIsEmpty := (LastEvaluatedKey dynamoResponse = None)\<rparr>))
      else Some (None, g))"

text \<open>
  \<^verbatim>\<open>this.config.secondaryIndexes && input.IndexName
      && this.config.secondaryIndexes[input.IndexName].ProjectionType !== "ALL"\<close>
  An index name that the configuration does not list makes the last conjunct throw.
\<close>

definition indexIsPartial :: "'e repository \<Rightarrow> search_input \<Rightarrow> err + bool" where
  "indexIsPartial r input =
     (case secondaryIndexes (config r) of
        None \<Rightarrow> Inr False
      | Some indexes \<Rightarrow>
          (case IndexName input of
             None \<Rightarrow> Inr False
           | Some name \<Rightarrow>
               if name = [] then Inr False
               else (case map_of indexes name of
                       None \<Rightarrow> Inl TypeError
                     | Some projectionType \<Rightarrow> Inr (projectionType \<noteq> ''ALL''))))"

text \<open>
  \<open>DynamoRepository.get\<close>, with the store answering at once: undefined (\<open>None\<close>) when the
  store has no item.
\<close>

definition get_now :: "'e repository \<Rightarrow> document_client \<Rightarrow> attrmap \<Rightarrow> err + 'e option" where
  "get_now r dc Key =
     (case dc_get dc (tableName (config r)) Key of
        Inl e \<Rightarrow> Inl e
      | Inr None \<Rightarrow> Inr None
      | Inr (Some item) \<Rightarrow> Inr (Some (unMarshal (config r) item)))"

text \<open>
  \<open>{[this._hashKey]: indexed[this._hashKey], [this._rangeKey]: indexed[this._rangeKey]}\<close>:
  without a range key the second property is the one called \<open>"undefined"\<close>.
\<close>

definition indexedKey :: "'e repository \<Rightarrow> attrmap \<Rightarrow> attrmap" where
  "indexedKey r indexed =
     (let rangeName = (case rangeKey r of None \<Rightarrow> ''undefined'' | Some n \<Rightarrow> n)
      in set_attr rangeName (attr_opt indexed (rangeKey r))
           (set_attr (hashKey r) (attr indexed (hashKey r)) []))"

text \<open>
  One pull of the generator that \<open>DynamoRepository.search\<close> returns, on an instance of the
  base class. The result is the entity, undefined (\<open>Inr None\<close>), or the error thrown,
  together with the closures' variables afterwards; \<open>None\<close> when the pull never returns.
\<close>

definition search_next ::
  "'e repository \<Rightarrow> document_client \<Rightarrow> search_input \<Rightarrow> search_state
     \<Rightarrow> ((err + 'e option) \<times> search_state) option" where
  "search_next r dc input g =
     (case fetchLoop r dc input g of
        None \<Rightarrow> None
      | Some (Some e, g1) \<Rightarrow> Some (Inl e, g1)
      | Some (None, g1) \<Rightarrow>
          (case batch g1 of
             [] \<Rightarrow> Some (Inr None, g1)
           | indexed # rest \<Rightarrow>
               (case indexIsPartial r input of
                  Inl e \<Rightarrow> Some (Inl e, g1)
                | Inr True \<Rightarrow> Some (get_now r dc (indexedKey r indexed), g1\<lparr>batch := rest\<rparr>)
                | Inr False \<Rightarrow> Some (Inr (Some (unMarshal (config r) indexed)), g1\<lparr>batch := rest\<rparr>))))"

text \<open>
  Successive pulls, each awaited before the next: the results in order, and the state
  after the last. An error ends the run (the caller's \<open>await\<close> throws).
\<close>

fun pulls ::
  "'e repository \<Rightarrow> document_client \<Rightarrow> search_input \<Rightarrow> nat \<Rightarrow> search_state
     \<Rightarrow> (err + ('e option list \<times> search_state)) option" where
  "pulls r dc input 0 g = Some (Inr ([], g))"
| "pulls r dc input (Suc n) g =
     (case search_next r dc input g of
        None \<Rightarrow> None
      | Some (Inl e, g1) \<Rightarrow> Some (Inl e)
      | Some (Inr x, g1) \<Rightarrow>
          (case pulls r dc input n g1 of
             None \<Rightarrow> None
           | Some (Inl e) \<Rightarrow> Some (Inl e)
           | Some (Inr (xs, g2)) \<Rightarrow> Some (Inr (x # xs, g2))))"

text \<open>
  The store region that a search reads, as the pages the store hands out from a cursor on:
  every page but the last carries the cursor of the next request, the last carries none.
\<close>

fun region ::
  "(search_input \<Rightarrow> err + dc_page) \<Rightarrow> search_input \<Rightarrow> attrmap option \<Rightarrow> dc_page list \<Rightarrow> bool" where
  "region ask input cursor [] = False"
| "region ask input cursor [page] =
     (ask (input\<lparr>ExclusiveStartKey := cursor\<rparr>) = Inr page \<and> LastEvaluatedKey page = None)"
| "region ask input cursor (page # pages) =
     (ask (input\<lparr>ExclusiveStartKey := cursor\<rparr>) = Inr page \<and> LastEvaluatedKey page \<noteq> None
      \<and> region ask input (LastEvaluatedKey page) pages)"

text \<open>The request that a search sends: a query when its input has a key condition.\<close>

definition ask_of :: "'e repository \<Rightarrow> document_client \<Rightarrow> search_input \<Rightarrow> search_input \<Rightarrow> err + dc_page" where
  "ask_of r dc input =
     (if isQueryInput input then dc_query dc (tableName (config r))
      else dc_scan dc (tableName (config r)))"

text \<open>
  What a pull hands out for the item it takes off the page: the unmarshalled item, or,
  through an index that is not fully projected, the result of the point read.
\<close>

definition yield :: "'e repository \<Rightarrow> document_client \<Rightarrow> search_input \<Rightarrow> attrmap \<Rightarrow> err + 'e option" where
  "yield r dc input item =
     (case indexIsPartial r input of
        Inl e \<Rightarrow> Inl e
      | Inr True \<Rightarrow> get_now r dc (indexedKey r item)
      | Inr False \<Rightarrow> Inr (Some (unMarshal (config r) item)))"

text \<open>
  The pages that a generator in state \<open>g\<close> has still to fetch: none once the source
  is known to be empty.
\<close>

definition remaining :: "'e repository \<Rightarrow> document_client \<Rightarrow> search_input \<Rightarrow> search_state \<Rightarrow> dc_page list \<Rightarrow> bool" where
  "remaining r dc input g pages =
     (if sourceIsEmpty g then pages = []
      else \<not> blockSourceIsEmpty g \<and> region (ask_of r dc input) input (lastEvaluatedKey g) pages)"

text \<open>
  \<open>yields\<close> pairs a list of items with what the pulls hand out for them, item by item.
\<close>

fun yields :: "'e repository \<Rightarrow> document_client \<Rightarrow> search_input \<Rightarrow> attrmap list \<Rightarrow> 'e option list \<Rightarrow> bool" where
  "yields r dc input [] [] = True"
| "yields r dc input (x # xs) (v # vs) = (yield r dc input x = Inr v \<and> yields r dc input xs vs)"
| "yields r dc input _ _ = False"

text \<open>The results of the first \<open>n\<close> pulls of a new search.\<close>

definition search_results ::
  "'e repository \<Rightarrow> document_client \<Rightarrow> search_input \<Rightarrow> nat \<Rightarrow> (err + 'e option list) option" where
  "search_results r dc input n = map_option (map_sum id fst) (pulls r dc input n (search_start input))"

subsection \<open>getList\<close>






section \<open>Promises, the store's calls and the repository's state\<close>

text \<open>
  An entity is an object: the cache and the tracker know it by its reference (a number),
  and the application changes it in place. A promise is an object too. Its value is an
  entity reference or undefined (\<open>None\<close>).
\<close>

datatype settled = Pending | Fulfilled "nat option" | Rejected err

text \<open>
  The invocation of an asynchronous method that a promise belongs to, with what the
  method still has in hand when the store answers: the key of a point read, the entity of
  a create, an update or a delete. \<open>NoTask\<close> is a promise made by \<open>Promise.resolve\<close>.
\<close>

datatype task = NoTask | GetTask attrmap | CreateTask nat | UpdateTask nat | DeleteTask nat

record promise =
  pstate :: settled
  owner :: task

text \<open>A call on the document client: the table name and the key or the item.\<close>

datatype store_call = GetItem string attrmap | PutItem string attrmap | DeleteItem string attrmap

text \<open>What the store's callback is called with.\<close>

datatype response = Failure err | Success "attrmap option"

text \<open>
  The events the classes emit: \<open>cacheKeyInUse\<close> with \<open>cachedItem\<close> (the cache's entry, a
  promise) and \<open>newItem\<close>; \<open>flushed\<close>; \<open>error.creating\<close>, \<open>error.updating\<close> and
  \<open>error.deleting\<close> with the error and the entity; \<open>error.flushing\<close>.
\<close>

datatype event =
    CacheKeyInUse "nat option" "nat option"
  | Flushed
  | ErrorCreating err nat
  | ErrorUpdating err nat
  | ErrorDeleting err nat
  | ErrorFlushing

datatype action = CREATE | UPDATE | DELETE

text \<open>A value of the tracked table: \<open>{action, initialStatus?, entity}\<close>.\<close>

record tracked_entry =
  action :: action
  initialStatus :: "string option"
  entity :: nat

text \<open>A call of \<open>flush\<close> that has passed its loop: the promises it joins, and how it ended.\<close>

datatype flush_status = Waiting | FlushResolved | FlushRejected err

text \<open>
  The state of one \<open>ManagedDynamoRepository\<close> and of what it talks to:
  the entities (\<open>heap\<close>, with the next free reference), the promises made so far, the
  calls made on the document client (each with the promise that its callback settles),
  the cache (a \<open>Map\<close> of \<open>Map\<close>s, from the hash value and the range value to a promise), the
  tracked table (a \<open>Map\<close> keyed by entity reference, in insertion order), the events
  emitted, and the calls of \<open>flush\<close>.
\<close>

record 'e world =
  heap :: "nat \<Rightarrow> 'e"
  nextRef :: nat
  promises :: "promise list"
  calls :: "(nat \<times> store_call) list"
  cache :: "jsval \<rightharpoonup> (jsval \<rightharpoonup> nat)"
  tracked :: "(nat \<times> tracked_entry) list"
  events :: "event list"
  flushes :: "(nat list \<times> flush_status) list"

definition new_world :: "(nat \<Rightarrow> 'e) \<Rightarrow> 'e world" where
  "new_world h =
     \<lparr>heap = h, nextRef = 0, promises = [], calls = [], cache = Map.empty, tracked = [],
      events = [], flushes = []\<rparr>"

definition promise_state :: "'e world \<Rightarrow> nat \<Rightarrow> settled" where
  "promise_state w p = (if p < length (promises w) then pstate (promises w ! p) else Pending)"

definition promise_owner :: "'e world \<Rightarrow> nat \<Rightarrow> task" where
  "promise_owner w p = (if p < length (promises w) then owner (promises w ! p) else NoTask)"

text \<open>A new promise; its reference is its position.\<close>

definition new_promise :: "settled \<Rightarrow> task \<Rightarrow> 'e world \<Rightarrow> nat \<times> 'e world" where
  "new_promise st t w =
     (length (promises w), w\<lparr>promises := promises w @ [\<lparr>pstate = st, owner = t\<rparr>]\<rparr>)"

definition settle :: "nat \<Rightarrow> settled \<Rightarrow> 'e world \<Rightarrow> 'e world" where
  "settle p st w = w\<lparr>promises := (promises w)[p := (promises w ! p)\<lparr>pstate := st\<rparr>]\<rparr>"

definition emit :: "event \<Rightarrow> 'e world \<Rightarrow> 'e world" where
  "emit ev w = w\<lparr>events := events w @ [ev]\<rparr>"

text \<open>
  The result of an asynchronous method run up to its end: it returned, it threw, or it
  waits at an \<open>await\<close> for a promise that is still pending.
\<close>

datatype 'a outcome = Returned 'a | Thrown err | Suspended

section \<open>repository.class.ts and repository.cached.class.ts: reading through the cache\<close>

text \<open>
  \<open>DynamoRepository.get\<close> up to its \<open>await\<close>: the promise it returns is new, and the call
  on the document client is made before the method gives control back.
\<close>

definition DynamoRepository_get :: "'e repository \<Rightarrow> attrmap \<Rightarrow> 'e world \<Rightarrow> nat \<times> 'e world" where
  "DynamoRepository_get r Key w =
     (case new_promise Pending (GetTask Key) w of
        (p, w1) \<Rightarrow> (p, w1\<lparr>calls := calls w1 @ [(p, GetItem (tableName (config r)) Key)]\<rparr>))"

text \<open>
  \<^verbatim>\<open>public get(key) {
      if (!this.cache.has(key[this.hashKey])) { this.cache.set(key[this.hashKey], new Map()); }
      if (!this.cache.get(key[this.hashKey]).has(key[this.rangeKey])) {
          this.cache.get(key[this.hashKey]).set(key[this.rangeKey], super.get(key)); }
      return this.cache.get(key[this.hashKey]).get(key[this.rangeKey]); }\<close>
\<close>

definition CachedDynamoRepository_get :: "'e repository \<Rightarrow> attrmap \<Rightarrow> 'e world \<Rightarrow> nat \<times> 'e world" where
  "CachedDynamoRepository_get r key w =
     (let h = attr key (hashKey r);
          rg = attr_opt key (rangeKey r);
          w1 = (if cache w h = None then w\<lparr>cache := (cache w)(h \<mapsto> Map.empty)\<rparr> else w);
          bucket = (case cache w1 h of None \<Rightarrow> Map.empty | Some b \<Rightarrow> b)
      in case bucket rg of
           Some p \<Rightarrow> (p, w1)
         | None \<Rightarrow>
             (case DynamoRepository_get r key w1 of
                (p, w2) \<Rightarrow> (p, w2\<lparr>cache := (cache w2)(h \<mapsto> bucket(rg \<mapsto> p))\<rparr>)))"

text \<open>\<open>clear() { this.cache.clear(); }\<close>\<close>

definition clear :: "'e world \<Rightarrow> 'e world" where
  "clear w = w\<lparr>cache := Map.empty\<rparr>"

definition keyIsCached :: "'e repository \<Rightarrow> attrmap \<Rightarrow> 'e world \<Rightarrow> bool" where
  "keyIsCached r key w =
     (case cache w (attr key (hashKey r)) of
        None \<Rightarrow> False
      | Some bucket \<Rightarrow> bucket (attr_opt key (rangeKey r)) \<noteq> None)"

text \<open>\<open>getFromCache\<close>: the entry, or undefined (\<open>None\<close>).\<close>

definition getFromCache :: "'e repository \<Rightarrow> attrmap \<Rightarrow> 'e world \<Rightarrow> nat option" where
  "getFromCache r key w =
     (case cache w (attr key (hashKey r)) of
        None \<Rightarrow> None
      | Some bucket \<Rightarrow> bucket (attr_opt key (rangeKey r)))"

text \<open>
  The last three lines of \<open>addToCacheByKey\<close>: a promise already resolved with the entity
  takes the key's place in the cache.
\<close>

definition installInCache :: "'e repository \<Rightarrow> attrmap \<Rightarrow> nat option \<Rightarrow> 'e world \<Rightarrow> 'e world" where
  "installInCache r key e w =
     (let h = attr key (hashKey r);
          rg = attr_opt key (rangeKey r);
          w1 = (if cache w h = None then w\<lparr>cache := (cache w)(h \<mapsto> Map.empty)\<rparr> else w);
          bucket = (case cache w1 h of None \<Rightarrow> Map.empty | Some b \<Rightarrow> b)
      in case new_promise (Fulfilled e) NoTask w1 of
           (p, w2) \<Rightarrow> w2\<lparr>cache := (cache w2)(h \<mapsto> bucket(rg \<mapsto> p))\<rparr>)"

text \<open>
  \<^verbatim>\<open>private async addToCacheByKey(key, entity) {
      const currentCached = await this.getFromCache(key);
      if (currentCached !== undefined) {
          if (currentCached !== entity) {
              this.eventEmitter.emit("cacheKeyInUse",
                  {cachedItem: this.getFromCache(key), newItem: entity}); }
          return; }
      ... }\<close>
  The method reads the cache's entry for the key when it is called and waits for it; the
  entry it waits for is \<open>awaited\<close> (undefined when the key had none). What follows the
  \<open>await\<close> runs in the state that the repository is in by then: while the awaited promise
  is pending the method goes on waiting, when it is rejected the \<open>await\<close> throws, and
  otherwise the cache is read again and written.
\<close>

definition addToCacheByKey_resume ::
  "'e repository \<Rightarrow> attrmap \<Rightarrow> nat option \<Rightarrow> nat option \<Rightarrow> 'e world
     \<Rightarrow> unit outcome \<times> 'e world" where
  "addToCacheByKey_resume r key e awaited w =
     (case awaited of
        None \<Rightarrow> (Returned (), installInCache r key e w)
      | Some p \<Rightarrow>
          (case promise_state w p of
             Pending \<Rightarrow> (Suspended, w)
           | Rejected er \<Rightarrow> (Thrown er, w)
           | Fulfilled None \<Rightarrow> (Returned (), installInCache r key e w)
           | Fulfilled (Some currentCached) \<Rightarrow>
               if Some currentCached \<noteq> e
               then (Returned (), emit (CacheKeyInUse (getFromCache r key w) e) w)
               else (Returned (), w)))"

text \<open>
  The method from its call to its end with nothing in between, as a caller sees it who
  awaits it while nothing else runs. Where it is left waiting (\<open>Suspended\<close>), it goes on
  with \<open>addToCacheByKey_resume\<close> and the entry it has read.
\<close>

definition addToCacheByKey ::
  "'e repository \<Rightarrow> attrmap \<Rightarrow> nat option \<Rightarrow> 'e world \<Rightarrow> unit outcome \<times> 'e world" where
  "addToCacheByKey r key e w = addToCacheByKey_resume r key e (getFromCache r key w) w"

text \<open>\<open>getEntityKey(e) { return getEntityKey(this.config.keySchema, this.config.marshal(e)); }\<close>\<close>

definition entityKey :: "'e repository \<Rightarrow> 'e \<Rightarrow> err + attrmap" where
  "entityKey r e = getEntityKey (keySchema (config r)) (marshal (config r) e)"

text \<open>
  \<open>async addToCache(e) { await this.addToCacheByKey(this.getEntityKey(e), e); }\<close>
  Where it is left waiting it goes on as \<open>addToCacheByKey_resume\<close> does.
\<close>

definition addToCache :: "'e repository \<Rightarrow> nat \<Rightarrow> 'e world \<Rightarrow> unit outcome \<times> 'e world" where
  "addToCache r e w =
     (case entityKey r (heap w e) of
        Inl er \<Rightarrow> (Thrown er, w)
      | Inr key \<Rightarrow> addToCacheByKey r key (Some e) w)"

text \<open>
  The last lines of the generator of \<open>CachedDynamoRepository.search\<close>, for an entity that
  the reader has handed out:
  \<^verbatim>\<open>const key = this.getEntityKey(entity);
  await this.addToCacheByKey(key, entity);
  return this.getFromCache(key);\<close>
  First what follows the \<open>await\<close> inside \<open>addToCacheByKey\<close>, then the lines from their
  start.
\<close>

definition search_install_resume ::
  "'e repository \<Rightarrow> attrmap \<Rightarrow> nat \<Rightarrow> nat option \<Rightarrow> 'e world
     \<Rightarrow> nat option outcome \<times> 'e world" where
  "search_install_resume r key e awaited w =
     (case addToCacheByKey_resume r key (Some e) awaited w of
        (Returned _, w1) \<Rightarrow> (Returned (getFromCache r key w1), w1)
      | (Thrown er, w1) \<Rightarrow> (Thrown er, w1)
      | (Suspended, w1) \<Rightarrow> (Suspended, w1))"

definition search_install ::
  "'e repository \<Rightarrow> nat \<Rightarrow> 'e world \<Rightarrow> nat option outcome \<times> 'e world" where
  "search_install r e w =
     (case entityKey r (heap w e) of
        Inl er \<Rightarrow> (Thrown er, w)
      | Inr key \<Rightarrow> search_install_resume r key e (getFromCache r key w) w)"

text \<open>
  The body of the first loop of \<open>CachedDynamoRepository.getList\<close>, for one requested key
  and what the batch read gave for it (undefined when the store has no item):
  \<^verbatim>\<open>const entity = response.get(key);
  await this.addToCacheByKey(key, entity);
  result.set(key, await this.getFromCache(key));\<close>
  The result is the cache's entry. Again first what follows the \<open>await\<close> inside
  \<open>addToCacheByKey\<close>, then the body from its start.
\<close>

definition getList_install_resume ::
  "'e repository \<Rightarrow> attrmap \<Rightarrow> nat option \<Rightarrow> nat option \<Rightarrow> 'e world
     \<Rightarrow> nat option outcome \<times> 'e world" where
  "getList_install_resume r key e awaited w =
     (case addToCacheByKey_resume r key e awaited w of
        (Returned _, w1) \<Rightarrow> (Returned (getFromCache r key w1), w1)
      | (Thrown er, w1) \<Rightarrow> (Thrown er, w1)
      | (Suspended, w1) \<Rightarrow> (Suspended, w1))"

definition getList_install ::
  "'e repository \<Rightarrow> attrmap \<Rightarrow> nat option \<Rightarrow> 'e world \<Rightarrow> nat option outcome \<times> 'e world" where
  "getList_install r key e w = getList_install_resume r key e (getFromCache r key w) w"

section \<open>repository.managed.class.ts: the tracker\<close>

text \<open>
  \<^verbatim>\<open>public track(entity) {
      if (entity === undefined) { return; }
      if (this.tracked.has(entity)) { return; }
      this.tracked.set(entity, {action: "UPDATE", initialStatus: JSON.stringify(entity), entity}); }\<close>
\<close>

definition track :: "'e repository \<Rightarrow> nat option \<Rightarrow> 'e world \<Rightarrow> 'e world" where
  "track r ent w =
     (case ent of
        None \<Rightarrow> w
      | Some e \<Rightarrow>
          if map_of (tracked w) e \<noteq> None then w
          else w\<lparr>tracked := AList.update e
                   \<lparr>action = UPDATE, initialStatus = Some (JSON_stringify r (heap w e)), entity = e\<rparr>
                   (tracked w)\<rparr>)"

text \<open>
  \<^verbatim>\<open>public async trackNew(entity) {
      await super.addToCache(entity);
      if (entity === undefined) { return; }
      if (this.tracked.has(entity)) { return; }
      this.tracked.set(entity, {action: "CREATE", entity}); }\<close>
  The \<open>await\<close> is that of \<open>addToCacheByKey\<close>, for the entity's key and the entry read at
  the call. \<open>trackNew_resume\<close> is what follows it: the cache is written, or the method
  goes on waiting, and once \<open>addToCache\<close> has returned the entity is tracked.
\<close>

definition trackNew_resume ::
  "'e repository \<Rightarrow> attrmap \<Rightarrow> nat \<Rightarrow> nat option \<Rightarrow> 'e world \<Rightarrow> unit outcome \<times> 'e world" where
  "trackNew_resume r key e awaited w =
     (case addToCacheByKey_resume r key (Some e) awaited w of
        (Returned _, w1) \<Rightarrow>
          if map_of (tracked w1) e \<noteq> None then (Returned (), w1)
          else (Returned (),
                w1\<lparr>tracked := AList.update e
                      \<lparr>action = CREATE, initialStatus = None, entity = e\<rparr> (tracked w1)\<rparr>)
      | (Thrown er, w1) \<Rightarrow> (Thrown er, w1)
      | (Suspended, w1) \<Rightarrow> (Suspended, w1))"

text \<open>\<open>trackNew\<close> from its call to its end with nothing in between.\<close>

definition trackNew :: "'e repository \<Rightarrow> nat \<Rightarrow> 'e world \<Rightarrow> unit outcome \<times> 'e world" where
  "trackNew r e w =
     (case entityKey r (heap w e) of
        Inl er \<Rightarrow> (Thrown er, w)
      | Inr key \<Rightarrow> trackNew_resume r key e (getFromCache r key w) w)"

text \<open>
  \<^verbatim>\<open>public delete(entity) {
      if (entity === undefined) { return; }
      if (this.tracked.has(entity) && this.tracked.get(entity).action === "CREATE") {
          this.tracked.delete(entity);
      } else {
          this.tracked.set(entity, {action: "DELETE", entity}); } }\<close>
\<close>

definition delete :: "nat option \<Rightarrow> 'e world \<Rightarrow> 'e world" where
  "delete ent w =
     (case ent of
        None \<Rightarrow> w
      | Some e \<Rightarrow>
          if (case map_of (tracked w) e of None \<Rightarrow> False | Some t \<Rightarrow> action t = CREATE)
          then w\<lparr>tracked := AList.delete e (tracked w)\<rparr>
          else w\<lparr>tracked := AList.update e
                   \<lparr>action = DELETE, initialStatus = None, entity = e\<rparr> (tracked w)\<rparr>)"

text \<open>\<open>clearTrackedEntities() { this.tracked = new Map(); }\<close>\<close>

definition clearTrackedEntities :: "'e world \<Rightarrow> 'e world" where
  "clearTrackedEntities w = w\<lparr>tracked := []\<rparr>"

text \<open>
  \<open>ManagedDynamoRepository.get\<close>: up to its \<open>await\<close> it is the cached \<open>get\<close>; once the
  cache's promise \<open>p\<close> is settled it goes on with \<open>this.track(entity); return entity\<close>.
\<close>

definition Managed_get_resume ::
  "'e repository \<Rightarrow> nat \<Rightarrow> 'e world \<Rightarrow> nat option outcome \<times> 'e world" where
  "Managed_get_resume r p w =
     (case promise_state w p of
        Pending \<Rightarrow> (Suspended, w)
      | Rejected er \<Rightarrow> (Thrown er, w)
      | Fulfilled ent \<Rightarrow> (Returned ent, track r ent w))"

text \<open>
  \<^verbatim>\<open>private async createItem(entity) {
      const request = {Item: this.config.marshal(entity), TableName: this.config.tableName};
      try { await this.asyncPut(request); }
      catch (err) { this.eventEmitter.emit(eventType.errorCreating, err, entity); throw err; } }\<close>
  Up to the \<open>await\<close>; the \<open>catch\<close> is in \<open>respond\<close>.
\<close>

definition createItem :: "'e repository \<Rightarrow> nat \<Rightarrow> 'e world \<Rightarrow> nat \<times> 'e world" where
  "createItem r e w =
     (case new_promise Pending (CreateTask e) w of
        (p, w1) \<Rightarrow>
          (p, w1\<lparr>calls := calls w1 @
                  [(p, PutItem (tableName (config r)) (marshal (config r) (heap w e)))]\<rparr>))"

text \<open>
  \<open>JSON.stringify(entity) !== this.tracked.get(entity).initialStatus\<close>; reading
  \<open>initialStatus\<close> of an entity that is not tracked throws.
\<close>

definition entityHasChanged :: "'e repository \<Rightarrow> nat \<Rightarrow> 'e world \<Rightarrow> err + bool" where
  "entityHasChanged r e w =
     (case map_of (tracked w) e of
        None \<Rightarrow> Inl TypeError
      | Some t \<Rightarrow> Inr (Some (JSON_stringify r (heap w e)) \<noteq> initialStatus t))"

text \<open>
  \<^verbatim>\<open>private async updateItem(entity) {
      if (!this.entityHasChanged(entity)) { return; }
      const request = {Item: this.config.marshal(entity), TableName: this.config.tableName};
      try { await this.asyncPut(request); }
      catch (err) { this.eventEmitter.emit(eventType.errorUpdating, err, entity); throw err; } }\<close>
\<close>

definition updateItem :: "'e repository \<Rightarrow> nat \<Rightarrow> 'e world \<Rightarrow> nat \<times> 'e world" where
  "updateItem r e w =
     (case entityHasChanged r e w of
        Inl er \<Rightarrow> new_promise (Rejected er) (UpdateTask e) w
      | Inr False \<Rightarrow> new_promise (Fulfilled None) (UpdateTask e) w
      | Inr True \<Rightarrow>
          (case new_promise Pending (UpdateTask e) w of
             (p, w1) \<Rightarrow>
               (p, w1\<lparr>calls := calls w1 @
                       [(p, PutItem (tableName (config r)) (marshal (config r) (heap w e)))]\<rparr>)))"

text \<open>
  \<^verbatim>\<open>private async deleteItem(item) {
      try {
          return this.asyncDelete({
              Key: getEntityKey(this.config.keySchema, this.config.marshal(item)),
              TableName: this.config.tableName });
      } catch (err) { this.eventEmitter.emit(eventType.errorDeleting, err, item); throw err; } }\<close>
  The promise of \<open>asyncDelete\<close> is returned, not awaited: the method has left its \<open>try\<close>
  when the store answers, and its own promise takes the state of the returned one. The
  \<open>catch\<close> sees only what is thrown while the request is built.
\<close>

definition deleteItem :: "'e repository \<Rightarrow> nat \<Rightarrow> 'e world \<Rightarrow> nat \<times> 'e world" where
  "deleteItem r item w =
     (case entityKey r (heap w item) of
        Inl er \<Rightarrow> new_promise (Rejected er) (DeleteTask item) (emit (ErrorDeleting er item) w)
      | Inr Key \<Rightarrow>
          (case new_promise Pending (DeleteTask item) w of
             (p, w1) \<Rightarrow> (p, w1\<lparr>calls := calls w1 @ [(p, DeleteItem (tableName (config r)) Key)]\<rparr>)))"

text \<open>The body of the loop of \<open>flush\<close>: the \<open>switch\<close> on the entry's action.\<close>

definition dispatch :: "'e repository \<Rightarrow> tracked_entry \<Rightarrow> 'e world \<Rightarrow> nat \<times> 'e world" where
  "dispatch r entityConfig w =
     (case action entityConfig of
        UPDATE \<Rightarrow> updateItem r (entity entityConfig) w
      | DELETE \<Rightarrow> deleteItem r (entity entityConfig) w
      | CREATE \<Rightarrow> createItem r (entity entityConfig) w)"

text \<open>\<open>for (const entityConfig of this.tracked.values()) { ... processed.push(...) }\<close>\<close>

fun flush_loop :: "'e repository \<Rightarrow> tracked_entry list \<Rightarrow> 'e world \<Rightarrow> nat list \<times> 'e world" where
  "flush_loop r [] w = ([], w)"
| "flush_loop r (entityConfig # rest) w =
     (case dispatch r entityConfig w of
        (p, w1) \<Rightarrow> (case flush_loop r rest w1 of (ps, w2) \<Rightarrow> (p # ps, w2)))"

text \<open>
  \<open>Promise.all(processed)\<close> as \<open>flush\<close> awaits it. It is rejected as soon as one of the
  promises is rejected, with that promise's error, and fulfilled when all are fulfilled.
  Of promises that are rejected already when it is called, the first in the list counts.
\<close>

fun is_fulfilled :: "settled \<Rightarrow> bool" where
  "is_fulfilled (Fulfilled v) = True"
| "is_fulfilled _ = False"

fun first_rejected :: "'e world \<Rightarrow> nat list \<Rightarrow> err option" where
  "first_rejected w [] = None"
| "first_rejected w (p # ps) =
     (case promise_state w p of Rejected er \<Rightarrow> Some er | _ \<Rightarrow> first_rejected w ps)"

definition all_fulfilled :: "'e world \<Rightarrow> nat list \<Rightarrow> bool" where
  "all_fulfilled w ps = list_all (\<lambda>p. is_fulfilled (promise_state w p)) ps"

text \<open>
  \<^verbatim>\<open>try { await Promise.all(processed); }
  catch (err) { this.eventEmitter.emit(eventType.errorFlushing); throw err; }
  this.eventEmitter.emit(eventType.flushed);\<close>
  at the moment \<open>flush\<close> reaches it.
\<close>

definition flush_join :: "nat list \<Rightarrow> 'e world \<Rightarrow> 'e world" where
  "flush_join processed w =
     (case first_rejected w processed of
        Some er \<Rightarrow> emit ErrorFlushing (w\<lparr>flushes := flushes w @ [(processed, FlushRejected er)]\<rparr>)
      | None \<Rightarrow>
          if all_fulfilled w processed
          then emit Flushed (w\<lparr>flushes := flushes w @ [(processed, FlushResolved)]\<rparr>)
          else w\<lparr>flushes := flushes w @ [(processed, Waiting)]\<rparr>)"

text \<open>\<open>flush\<close>, from its call to its \<open>await\<close>. The result is the position of this call in \<open>flushes\<close>.\<close>

definition flush :: "'e repository \<Rightarrow> 'e world \<Rightarrow> nat \<times> 'e world" where
  "flush r w =
     (case flush_loop r (map snd (tracked w)) w of
        (processed, w1) \<Rightarrow> (length (flushes w1), flush_join processed w1))"

text \<open>
  A waiting \<open>flush\<close> when promise \<open>p\<close> has just been settled: the new status and the events
  it emits.
\<close>

definition flush_wake ::
  "'e world \<Rightarrow> nat \<Rightarrow> nat list \<times> flush_status \<Rightarrow> (nat list \<times> flush_status) \<times> event list" where
  "flush_wake w p f =
     (case f of
        (processed, Waiting) \<Rightarrow>
          if p \<in> set processed then
            (case promise_state w p of
               Rejected er \<Rightarrow> ((processed, FlushRejected er), [ErrorFlushing])
             | _ \<Rightarrow>
                 if all_fulfilled w processed then ((processed, FlushResolved), [Flushed])
                 else (f, []))
          else (f, [])
      | _ \<Rightarrow> (f, []))"

definition wake_flushes :: "nat \<Rightarrow> 'e world \<Rightarrow> 'e world" where
  "wake_flushes p w =
     w\<lparr>flushes := map (\<lambda>f. fst (flush_wake w p f)) (flushes w),
       events := events w @ concat (map (\<lambda>f. snd (flush_wake w p f)) (flushes w))\<rparr>"

text \<open>
  The rest of the method that waits for the store's answer to the call of promise \<open>p\<close>:
  \<open>DynamoRepository.get\<close> unmarshals the item into a new entity, \<open>createItem\<close> and
  \<open>updateItem\<close> leave their \<open>try\<close> or run their \<open>catch\<close>, and the promise of \<open>deleteItem\<close>
  follows the store's.
\<close>

definition continue :: "'e repository \<Rightarrow> nat \<Rightarrow> response \<Rightarrow> 'e world \<Rightarrow> 'e world" where
  "continue r p resp w =
     (case promise_owner w p of
        NoTask \<Rightarrow> w
      | GetTask Key \<Rightarrow>
          (case resp of
             Failure er \<Rightarrow> settle p (Rejected er) w
           | Success None \<Rightarrow> settle p (Fulfilled None) w
           | Success (Some item) \<Rightarrow>
               settle p (Fulfilled (Some (nextRef w)))
                 (w\<lparr>heap := (heap w)(nextRef w := unMarshal (config r) item),
                    nextRef := Suc (nextRef w)\<rparr>))
      | CreateTask e \<Rightarrow>
          (case resp of
             Failure er \<Rightarrow> settle p (Rejected er) (emit (ErrorCreating er e) w)
           | Success _ \<Rightarrow> settle p (Fulfilled None) w)
      | UpdateTask e \<Rightarrow>
          (case resp of
             Failure er \<Rightarrow> settle p (Rejected er) (emit (ErrorUpdating er e) w)
           | Success _ \<Rightarrow> settle p (Fulfilled None) w)
      | DeleteTask e \<Rightarrow>
          (case resp of
             Failure er \<Rightarrow> settle p (Rejected er) w
           | Success _ \<Rightarrow> settle p (Fulfilled None) w))"

text \<open>
  The store answers the call of promise \<open>p\<close>: the waiting method goes on, and then the
  calls of \<open>flush\<close> that wait for \<open>p\<close>. A promise that is not pending has been answered.
\<close>

definition respond :: "'e repository \<Rightarrow> nat \<Rightarrow> response \<Rightarrow> 'e world \<Rightarrow> 'e world" where
  "respond r p resp w =
     (if promise_state w p = Pending \<and> p < length (promises w)
      then wake_flushes p (continue r p resp w)
      else w)"

section \<open>Runs of the repository and the calls they leave\<close>

text \<open>Calls of the cached \<open>get\<close> and answers of the store, in any order.\<close>

datatype step = Get attrmap | Respond nat response

fun run_step :: "'e repository \<Rightarrow> 'e world \<Rightarrow> step \<Rightarrow> 'e world" where
  "run_step r w (Get key) = snd (CachedDynamoRepository_get r key w)"
| "run_step r w (Respond p resp) = respond r p resp w"

definition run :: "'e repository \<Rightarrow> step list \<Rightarrow> 'e world \<Rightarrow> 'e world" where
  "run r steps w = foldl (run_step r) w steps"

text \<open>The point reads in the log of calls that are for the cache entry of a key.\<close>

fun reads_entry_of :: "'e repository \<Rightarrow> attrmap \<Rightarrow> store_call \<Rightarrow> bool" where
  "reads_entry_of r key (GetItem t k) =
     (attr k (hashKey r) = attr key (hashKey r) \<and> attr_opt k (rangeKey r) = attr_opt key (rangeKey r))"
| "reads_entry_of r key _ = False"


text \<open>The entity that a promise's method works on.\<close>

fun task_entity :: "task \<Rightarrow> nat option" where
  "task_entity (CreateTask e) = Some e"
| "task_entity (UpdateTask e) = Some e"
| "task_entity (DeleteTask e) = Some e"
| "task_entity _ = None"

text \<open>
  The calls on the document client made between the states \<open>w\<close> and \<open>w'\<close> by the methods
  that work on the entity \<open>e\<close>.
\<close>

definition calls_between :: "nat \<Rightarrow> 'e world \<Rightarrow> 'e world \<Rightarrow> store_call list" where
  "calls_between e w w' =
     map snd (filter (\<lambda>(p, c). task_entity (promise_owner w' p) = Some e)
                (drop (length (calls w)) (calls w')))"

text \<open>
  The calls on the document client that \<open>flush\<close> makes in the state \<open>w\<close>.
\<close>

definition issued_by_flush :: "'e repository \<Rightarrow> 'e world \<Rightarrow> store_call list" where
  "issued_by_flush r w = map snd (drop (length (calls w)) (calls (snd (flush r w))))"

text \<open>
  Of a list of calls, those made by the methods that work on the entity \<open>e\<close>.
\<close>

definition attributed :: "nat \<Rightarrow> 'e world \<Rightarrow> (nat \<times> store_call) list \<Rightarrow> store_call list" where
  "attributed e w cs = map snd (filter (\<lambda>(p, c). task_entity (promise_owner w p) = Some e) cs)"

text \<open>
  The calls that the loop of \<open>flush\<close> makes for one entry of the tracked table: a put
  for a create, a put for an update whose entity has changed, a delete for a delete whose
  key can be derived.
\<close>

definition entry_calls :: "'e repository \<Rightarrow> 'e world \<Rightarrow> tracked_entry \<Rightarrow> store_call list" where
  "entry_calls r w t =
     (case action t of
        CREATE \<Rightarrow> [PutItem (tableName (config r)) (marshal (config r) (heap w (entity t)))]
      | UPDATE \<Rightarrow>
          (case entityHasChanged r (entity t) w of
             Inr True \<Rightarrow> [PutItem (tableName (config r)) (marshal (config r) (heap w (entity t)))]
           | _ \<Rightarrow> [])
      | DELETE \<Rightarrow>
          (case entityKey r (heap w (entity t)) of
             Inr Key \<Rightarrow> [DeleteItem (tableName (config r)) Key]
           | Inl er \<Rightarrow> []))"

text \<open>
  The tracked table is a \<open>Map\<close> from entities to entries about themselves: no entity has
  two entries, and each entry's \<open>entity\<close> is its key.
\<close>

definition tracked_wf :: "'e world \<Rightarrow> bool" where
  "tracked_wf w = (distinct (map fst (tracked w)) \<and> list_all (\<lambda>(k, t). entity t = k) (tracked w))"


text \<open>
  The application makes a new entity (\<open>new Entity(...)\<close>).
\<close>

definition new_entity :: "'e \<Rightarrow> 'e world \<Rightarrow> nat \<times> 'e world" where
  "new_entity v w = (nextRef w, w\<lparr>heap := (heap w)(nextRef w := v), nextRef := Suc (nextRef w)\<rparr>)"

text \<open>
  The application changes an entity in place.
\<close>

definition assign :: "nat \<Rightarrow> 'e \<Rightarrow> 'e world \<Rightarrow> 'e world" where
  "assign e v w = w\<lparr>heap := (heap w)(e := v)\<rparr>"

subsection \<open>Values offered in the course of a run\<close>






section \<open>A table, three items and two stores\<close>

text \<open>
  The table of the repository's tests: hash key \<open>id\<close>, no range key, entities that are
  their own items. \<open>render\<close> stands for \<open>JSON.stringify\<close>.
\<close>

fun render_val :: "jsval \<Rightarrow> string" where
  "render_val (Str s) = s"
| "render_val (Num n) = (if n < 0 then ''-'' else []) @ replicate (nat \<bar>n\<bar>) CHR ''1''"
| "render_val (Bool b) = (if b then ''true'' else ''false'')"
| "render_val Null = ''null''"
| "render_val Undefined = []"
| "render_val (ObjRef a) = ''{}''"

definition render :: "attrmap \<Rightarrow> string" where
  "render item = concat (map (\<lambda>(k, v). k @ '':'' @ render_val v @ '';'') item)"

definition plain_config :: "attrmap table_config" where
  "plain_config =
     \<lparr>tableName = ''tableName'', keySchema = [\<lparr>AttributeName = ''id'', KeyType = ''HASH''\<rparr>],
      secondaryIndexes = None, marshal = (\<lambda>e. e), unMarshal = (\<lambda>item. item)\<rparr>"

definition plain_repository :: "attrmap repository" where
  "plain_repository = \<lparr>config = plain_config, hashKey = ''id'', rangeKey = None, JSON_stringify = render\<rparr>"

text \<open>
  The same table with an index that holds the keys only.
\<close>

definition indexed_repository :: "attrmap repository" where
  "indexed_repository =
     plain_repository\<lparr>config := plain_config\<lparr>secondaryIndexes := Some [(''byName'', ''KEYS_ONLY'')]\<rparr>\<rparr>"

text \<open>
  A scan of the table and a scan of the index.
\<close>

definition no_input :: search_input where
  "no_input = \<lparr>IndexName = None, Select = None, Limit = None, ScanIndexForward = None,
     ExclusiveStartKey = None, FilterExpression = None, KeyConditionExpression = None,
     ExpressionAttributeNames = None, ExpressionAttributeValues = None\<rparr>"

definition index_input :: search_input where
  "index_input = no_input\<lparr>IndexName := Some ''byName''\<rparr>"

text \<open>
  The items \<open>e1\<close>, \<open>e2\<close> and \<open>e3\<close> on two pages.
\<close>

definition first_page :: dc_page where
  "first_page = \<lparr>Items = [[(''id'', Str ''e1'')], [(''id'', Str ''e2'')]],
                 LastEvaluatedKey = Some [(''id'', Str ''e2'')]\<rparr>"

definition last_page :: dc_page where
  "last_page = \<lparr>Items = [[(''id'', Str ''e3'')]], LastEvaluatedKey = None\<rparr>"

definition two_pages :: "string \<Rightarrow> search_input \<Rightarrow> err + dc_page" where
  "two_pages t input = (if ExclusiveStartKey input = None then Inr first_page else Inr last_page)"

text \<open>
  The item that the table holds for a key.
\<close>

definition full_item :: "attrmap \<Rightarrow> attrmap" where
  "full_item key = [(''id'', attr key ''id''), (''name'', Str ''n'')]"

text \<open>
  A store whose table holds the three items, and one whose table has lost \<open>e1\<close> while
  its index still lists it.
\<close>

definition store_of_three :: document_client where
  "store_of_three = \<lparr>dc_query = two_pages, dc_scan = two_pages,
                      dc_get = (\<lambda>t key. Inr (Some (full_item key))),
                      dc_batchGet = (\<lambda>t keys. Inr (map full_item keys))\<rparr>"

definition store_without_e1 :: document_client where
  "store_without_e1 = \<lparr>dc_query = two_pages, dc_scan = two_pages,
                        dc_get = (\<lambda>t key. if attr key ''id'' = Str ''e1'' then Inr None
                                            else Inr (Some (full_item key))),
                        dc_batchGet = (\<lambda>t keys. Inr (map full_item
                                         (filter (\<lambda>key. attr key ''id'' \<noteq> Str ''e1'') keys)))\<rparr>"

text \<open>
  A generator that has handed out everything.
\<close>

definition exhausted :: search_state where
  "exhausted = \<lparr>batch = [], sourceIsEmpty = True, lastEvaluatedKey = None, blockSourceIsEmpty = True\<rparr>"

text \<open>
  The entity of the tracker's tests, as stored, as changed by the application, and a
  different entity with the same key.
\<close>

definition stored_item :: attrmap where
  "stored_item = [(''id'', Str ''entityId''), (''updated'', Bool False)]"

definition updated_item :: attrmap where
  "updated_item = [(''id'', Str ''entityId''), (''updated'', Bool True)]"

definition other_item :: attrmap where
  "other_item = [(''id'', Str ''entityId''), (''updated'', Bool True)]"


definition entity_key :: attrmap where
  "entity_key = [(''id'', Str ''entityId'')]"

text \<open>
  An error of the store.
\<close>

definition boom :: err where
  "boom = StoreError ''boom''"

text \<open>
  A new repository.
\<close>

definition empty_world :: "attrmap world" where
  "empty_world = new_world (\<lambda>e. [])"

text \<open>A first \<open>get\<close> of the entity's key, not yet answered.\<close>

definition world_reading :: "attrmap world" where
  "world_reading = snd (CachedDynamoRepository_get plain_repository entity_key empty_world)"

text \<open>
  The managed \<open>get\<close> of the entity's key, answered by the store with the stored item.
\<close>

definition world_after_get :: "attrmap world" where
  "world_after_get =
     (case CachedDynamoRepository_get plain_repository entity_key empty_world of
        (p, w1) \<Rightarrow>
          snd (Managed_get_resume plain_repository p
                 (respond plain_repository p (Success (Some stored_item)) w1)))"

text \<open>
  A \<open>get\<close> of the key, answered by the store with no item.
\<close>

definition world_after_miss :: "attrmap world" where
  "world_after_miss =
     (case CachedDynamoRepository_get plain_repository entity_key empty_world of
        (p, w1) \<Rightarrow> respond plain_repository p (Success None) w1)"

text \<open>
  A new entity, registered with \<open>trackNew\<close>.
\<close>

definition world_after_trackNew :: "attrmap world" where
  "world_after_trackNew =
     (case new_entity stored_item empty_world of
        (e, w1) \<Rightarrow> snd (trackNew plain_repository e w1))"




section \<open>Key comparison\<close>

















section \<open>The paginated reader\<close>

lemma fetchLoop_exit_aux:
  assumes "fetchLoop r dc input g = Some y"
  shows "fst y = None \<longrightarrow> batch (snd y) \<noteq> [] \<or> sourceIsEmpty (snd y)"
proof (rule fetchLoop.raw_induct
    [where P = "\<lambda>r dc input g y. fst y = None \<longrightarrow> batch (snd y) \<noteq> [] \<or> sourceIsEmpty (snd y)",
      OF _ assms], goal_cases)
  case (1 f r dc input g y)
  then show ?case
    by (auto split: if_splits prod.splits sum.splits option.splits)
qed

lemma fetchLoop_exit:
  "fetchLoop r dc input g = Some (None, g1) \<Longrightarrow> batch g1 \<noteq> [] \<or> sourceIsEmpty g1"
  using fetchLoop_exit_aux [of r dc input g "(None, g1)"] by simp

lemma fetchLoop_stop:
  "batch g \<noteq> [] \<or> sourceIsEmpty g \<Longrightarrow> fetchLoop r dc input g = Some (None, g)"
  by (subst fetchLoop.simps) auto

lemma region_Cons:
  "region ask input cursor (page # pages) \<Longrightarrow>
     ask (input\<lparr>ExclusiveStartKey := cursor\<rparr>) = Inr page
     \<and> (if pages = [] then LastEvaluatedKey page = None
        else LastEvaluatedKey page \<noteq> None \<and> region ask input (LastEvaluatedKey page) pages)"
  by (cases pages) auto

lemma getNextBlock_region:
  assumes "\<not> blockSourceIsEmpty g" "region (ask_of r dc input) input (lastEvaluatedKey g) (page # pages)"
  shows "getNextBlock r dc input g =
           (Inr (Some page), g\<lparr>lastEvaluatedKey := LastEvaluatedKey page,
                               blockSourceIsEmpty := (LastEvaluatedKey page = None)\<rparr>)"
  using assms region_Cons [OF assms(2)]
  by (auto simp: getNextBlock_def ask_of_def Let_def)

lemma fetchLoop_region:
  "remaining r dc input g pages \<Longrightarrow>
     \<exists>g1 pages1. fetchLoop r dc input g = Some (None, g1) \<and> remaining r dc input g1 pages1
       \<and> batch g1 @ concat (map Items pages1) = batch g @ concat (map Items pages)
       \<and> (batch g1 = [] \<longrightarrow> sourceIsEmpty g1)"
proof (induction pages arbitrary: g)
  case Nil
  then have "sourceIsEmpty g" by (auto simp: remaining_def split: if_splits)
  then have "fetchLoop r dc input g = Some (None, g)" by (simp add: fetchLoop_stop)
  with Nil \<open>sourceIsEmpty g\<close> show ?case by auto
next
  case (Cons page pages)
  show ?case
  proof (cases "batch g \<noteq> [] \<or> sourceIsEmpty g")
    case True
    then have stop: "fetchLoop r dc input g = Some (None, g)" by (rule fetchLoop_stop)
    from True Cons.prems have "batch g = [] \<longrightarrow> sourceIsEmpty g" by auto
    with stop Cons.prems show ?thesis by blast
  next
    case False
    with Cons.prems have nb: "\<not> blockSourceIsEmpty g"
      and reg: "region (ask_of r dc input) input (lastEvaluatedKey g) (page # pages)"
      by (auto simp: remaining_def)
    define g2 where "g2 = g\<lparr>lastEvaluatedKey := LastEvaluatedKey page,
        blockSourceIsEmpty := (LastEvaluatedKey page = None),
        batch := Items page, sourceIsEmpty := (LastEvaluatedKey page = None)\<rparr>"
    have step: "fetchLoop r dc input g = fetchLoop r dc input g2"
      using False getNextBlock_region [OF nb reg]
      by (subst fetchLoop.simps) (simp add: g2_def)
    have "remaining r dc input g2 pages"
      using region_Cons [OF reg] by (auto simp: remaining_def g2_def split: if_splits)
    from Cons.IH [OF this] obtain g1 pages1 where
      "fetchLoop r dc input g2 = Some (None, g1)" "remaining r dc input g1 pages1"
      "batch g1 @ concat (map Items pages1) = batch g2 @ concat (map Items pages)"
      "batch g1 = [] \<longrightarrow> sourceIsEmpty g1"
      by blast
    moreover have "batch g2 = Items page" by (simp add: g2_def)
    ultimately show ?thesis using False step by auto
  qed
qed

lemma search_next_empty:
  assumes "remaining r dc input g pages" "batch g @ concat (map Items pages) = []"
  shows "\<exists>g1. search_next r dc input g = Some (Inr None, g1) \<and> remaining r dc input g1 []
            \<and> batch g1 = []"
proof -
  from fetchLoop_region [OF assms(1)] obtain g1 pages1 where
    f: "fetchLoop r dc input g = Some (None, g1)" and rem: "remaining r dc input g1 pages1"
    and items: "batch g1 @ concat (map Items pages1) = batch g @ concat (map Items pages)"
    and ex: "batch g1 = [] \<longrightarrow> sourceIsEmpty g1"
    by blast
  from items assms(2) have b: "batch g1 = []" by simp
  with ex rem have "remaining r dc input g1 []" by (simp add: remaining_def)
  with f b show ?thesis by (auto simp: search_next_def)
qed

lemma search_next_item:
  assumes "remaining r dc input g pages" "batch g @ concat (map Items pages) = x # xs"
    and "yield r dc input x = Inr v"
  shows "\<exists>g1 pages1. search_next r dc input g = Some (Inr v, g1) \<and> remaining r dc input g1 pages1
            \<and> batch g1 @ concat (map Items pages1) = xs"
proof -
  from fetchLoop_region [OF assms(1)] obtain g1 pages1 where
    f: "fetchLoop r dc input g = Some (None, g1)" and rem: "remaining r dc input g1 pages1"
    and items: "batch g1 @ concat (map Items pages1) = batch g @ concat (map Items pages)"
    and ex: "batch g1 = [] \<longrightarrow> sourceIsEmpty g1"
    by blast
  have "batch g1 \<noteq> []"
  proof
    assume b: "batch g1 = []"
    with ex rem have "pages1 = []" by (simp add: remaining_def)
    with b items assms(2) show False by simp
  qed
  then obtain rest where b: "batch g1 = x # rest"
    using items assms(2) by (cases "batch g1") auto
  have rem': "remaining r dc input (g1\<lparr>batch := rest\<rparr>) pages1"
    using rem by (simp add: remaining_def)
  have xs: "batch (g1\<lparr>batch := rest\<rparr>) @ concat (map Items pages1) = xs"
    using items assms(2) b by simp
  have "search_next r dc input g = Some (Inr v, g1\<lparr>batch := rest\<rparr>)"
    using f b assms(3)
    by (auto simp: search_next_def yield_def split: sum.splits bool.splits)
  with rem' xs show ?thesis by blast
qed

lemma pulls_exhausted:
  "remaining r dc input g [] \<Longrightarrow> batch g = [] \<Longrightarrow>
     \<exists>g1. pulls r dc input n g = Some (Inr (replicate n None, g1))"
proof (induction n arbitrary: g)
  case 0
  then show ?case by simp
next
  case (Suc n)
  from search_next_empty [OF Suc.prems(1)] Suc.prems(2) obtain g1 where
    s: "search_next r dc input g = Some (Inr None, g1)" and r1: "remaining r dc input g1 []"
    and b1: "batch g1 = []"
    by auto
  from Suc.IH [OF r1 b1] obtain g2 where "pulls r dc input n g1 = Some (Inr (replicate n None, g2))"
    by blast
  with s show ?case by simp
qed

lemma pulls_region:
  "remaining r dc input g pages \<Longrightarrow> batch g @ concat (map Items pages) = xs \<Longrightarrow>
   yields r dc input xs vs \<Longrightarrow>
     \<exists>g1. pulls r dc input (length xs + n) g = Some (Inr (vs @ replicate n None, g1))"
proof (induction xs arbitrary: g pages vs)
  case Nil
  then have vs: "vs = []" by (cases vs) auto
  show ?case
  proof (cases n)
    case 0
    then show ?thesis using vs by simp
  next
    case (Suc m)
    from search_next_empty [OF Nil.prems(1)] Nil.prems(2) obtain g1 where
      s: "search_next r dc input g = Some (Inr None, g1)" and r1: "remaining r dc input g1 []"
      and b1: "batch g1 = []"
      by auto
    from pulls_exhausted [OF r1 b1, of m] obtain g2 where
      "pulls r dc input m g1 = Some (Inr (replicate m None, g2))" by blast
    with s Suc vs show ?thesis by simp
  qed
next
  case (Cons x xs)
  then obtain v vs' where vs: "vs = v # vs'" and y: "yield r dc input x = Inr v"
    and ys: "yields r dc input xs vs'"
    by (cases vs) auto
  from search_next_item [OF Cons.prems(1) Cons.prems(2) y] obtain g1 pages1 where
    s: "search_next r dc input g = Some (Inr v, g1)" and r1: "remaining r dc input g1 pages1"
    and i1: "batch g1 @ concat (map Items pages1) = xs"
    by blast
  from Cons.IH [OF r1 i1 ys] obtain g2 where
    "pulls r dc input (length xs + n) g1 = Some (Inr (vs' @ replicate n None, g2))" by blast
  with s vs show ?case by simp
qed

lemma remaining_start:
  "region (ask_of r dc input) input (ExclusiveStartKey input) pages \<Longrightarrow>
     remaining r dc input (search_start input) pages"
  by (simp add: remaining_def search_start_def)

lemmas fixture_defs = plain_config_def plain_repository_def indexed_repository_def no_input_def
  index_input_def first_page_def last_page_def two_pages_def full_item_def store_of_three_def
  store_without_e1_def

lemma new_repository_plain: "new_repository plain_config render = Inr plain_repository"
  by (simp add: new_repository_def schema_hashKey_def schema_rangeKey_def fixture_defs)

lemma search_results_region:
  assumes "region (ask_of r dc input) input (ExclusiveStartKey input) pages"
    and "yields r dc input (concat (map Items pages)) vs"
  shows "search_results r dc input (length (concat (map Items pages)) + n)
           = Some (Inr (vs @ replicate n None))"
proof -
  have "batch (search_start input) @ concat (map Items pages) = concat (map Items pages)"
    by (simp add: search_start_def)
  from pulls_region [OF remaining_start [OF assms(1)] this assms(2), of n]
  show ?thesis by (auto simp: search_results_def)
qed

lemma search_next_sentinel:
  assumes "search_next r dc input g0 = Some (Inr None, g1)"
  shows "(batch g1 = [] \<and> sourceIsEmpty g1)
         \<or> (indexIsPartial r input = Inr True
            \<and> (\<exists>g indexed. fetchLoop r dc input g0 = Some (None, g) \<and> batch g = indexed # batch g1
                  \<and> get_now r dc (indexedKey r indexed) = Inr None))"
proof -
  from assms obtain g where f: "fetchLoop r dc input g0 = Some (None, g)"
    by (auto simp: search_next_def split: option.splits prod.splits)
  show ?thesis
  proof (cases "batch g")
    case Nil
    with assms f have "g1 = g" by (simp add: search_next_def)
    with Nil fetchLoop_exit [OF f] show ?thesis by simp
  next
    case (Cons indexed rest)
    with assms f show ?thesis
      by (auto simp: search_next_def split: sum.splits bool.splits)
  qed
qed

lemmas reader_defs = search_results_def search_next_def fetchLoop.simps getNextBlock_def
      search_start_def isQueryInput_def indexIsPartial_def get_now_def indexedKey_def
      attr_def set_attr_def ask_of_def exhausted_def

text \<open>
  C8, at the failing input. The table has the secondary index \<open>byName\<close> with projection
  \<open>KEYS_ONLY\<close>; the index holds the keys of \<open>e1\<close>, \<open>e2\<close>, \<open>e3\<close> on two pages and the table
  holds \<open>e2\<close> and \<open>e3\<close> but not \<open>e1\<close>. A pull through the index hands out the result of the
  point read for the item it took off the page, and that is undefined when the table has no
  such item: the first pull returns undefined, the value that stands for the end of the
  results, although the page still holds \<open>e2\<close>, the cursor is not exhausted, and the next two
  pulls return \<open>e2\<close> and \<open>e3\<close>.
\<close>

theorem search_returns_sentinel_before_exhaustion:
  "region (ask_of indexed_repository store_without_e1 index_input) index_input
     (ExclusiveStartKey index_input) [first_page, last_page]
   \<and> concat (map Items [first_page, last_page])
       = [[(''id'', Str ''e1'')], [(''id'', Str ''e2'')], [(''id'', Str ''e3'')]]
   \<and> search_results indexed_repository store_without_e1 index_input 4
       = Some (Inr [None, Some [(''id'', Str ''e2''), (''name'', Str ''n'')],
                    Some [(''id'', Str ''e3''), (''name'', Str ''n'')], None])"
  by (simp add: reader_defs numeral_eq_Suc fixture_defs)

text \<open>
  Away from that input the pulls follow the store. For a search that does not go through a
  partially projected index (no \<open>secondaryIndexes\<close>, no \<open>IndexName\<close>, or projection \<open>ALL\<close>):
  when the store region holds the items A, B, C in page order, successive pulls return A, B
  and C unmarshalled, in that order, the fourth and every later pull return undefined, and
  undefined is returned only when the page is empty and no cursor remains.
\<close>

lemma search_pulls_follow_store_order:
  "(region (ask_of r dc input) input (ExclusiveStartKey input) pages
      \<and> concat (map Items pages) = [A, B, C] \<and> indexIsPartial r input = Inr False
    \<longrightarrow> search_results r dc input (4 + n)
          = Some (Inr ([Some (unMarshal (config r) A), Some (unMarshal (config r) B),
                        Some (unMarshal (config r) C)] @ replicate (Suc n) None)))
   \<and> (search_next r dc input g0 = Some (Inr None, g1) \<and> indexIsPartial r input = Inr False
    \<longrightarrow> batch g1 = [] \<and> sourceIsEmpty g1)"
proof (intro conjI impI)
  assume h: "region (ask_of r dc input) input (ExclusiveStartKey input) pages
      \<and> concat (map Items pages) = [A, B, C] \<and> indexIsPartial r input = Inr False"
  then have "yields r dc input (concat (map Items pages))
      [Some (unMarshal (config r) A), Some (unMarshal (config r) B), Some (unMarshal (config r) C)]"
    by (simp add: yield_def)
  from search_results_region [OF _ this, of "Suc n"] h
  show "search_results r dc input (4 + n)
          = Some (Inr ([Some (unMarshal (config r) A), Some (unMarshal (config r) B),
                        Some (unMarshal (config r) C)] @ replicate (Suc n) None))"
    by (simp add: numeral_eq_Suc)
next
  assume "search_next r dc input g0 = Some (Inr None, g1) \<and> indexIsPartial r input = Inr False"
  with search_next_sentinel [of r dc input g0 g1]
  show "batch g1 = []" and "sourceIsEmpty g1" by auto
qed

lemma search_pulls_follow_store_order_example:
  "region (ask_of plain_repository store_of_three no_input) no_input (ExclusiveStartKey no_input)
     [first_page, last_page]
   \<and> concat (map Items [first_page, last_page])
       = [[(''id'', Str ''e1'')], [(''id'', Str ''e2'')], [(''id'', Str ''e3'')]]
   \<and> indexIsPartial plain_repository no_input = Inr False
   \<and> search_results plain_repository store_of_three no_input 4
       = Some (Inr [Some [(''id'', Str ''e1'')], Some [(''id'', Str ''e2'')],
                    Some [(''id'', Str ''e3'')], None])
   \<and> search_next plain_repository store_of_three no_input exhausted = Some (Inr None, exhausted)
   \<and> batch exhausted = [] \<and> sourceIsEmpty exhausted"
  using search_pulls_follow_store_order [of plain_repository store_of_three no_input
      "[first_page, last_page]" "[(''id'', Str ''e1'')]" "[(''id'', Str ''e2'')]"
      "[(''id'', Str ''e3'')]" 0 exhausted exhausted]
  by (simp add: reader_defs fixture_defs)

text \<open>
  Through a partially projected index, on an instance of \<open>DynamoRepository\<close> itself (whose
  \<open>get\<close> is the point read): the pulls return, in page order, the results of the point reads
  keyed by A, B and C; a pull returns undefined when the page is empty and no cursor
  remains, or when the point read for the item it took off the page finds nothing.
\<close>

lemma search_through_partial_index:
  "(region (ask_of r dc input) input (ExclusiveStartKey input) pages
      \<and> concat (map Items pages) = [A, B, C] \<and> indexIsPartial r input = Inr True
      \<and> get_now r dc (indexedKey r A) = Inr a \<and> get_now r dc (indexedKey r B) = Inr b
      \<and> get_now r dc (indexedKey r C) = Inr c
    \<longrightarrow> search_results r dc input (4 + n) = Some (Inr ([a, b, c] @ replicate (Suc n) None)))
   \<and> (search_next r dc input g0 = Some (Inr None, g1) \<and> indexIsPartial r input = Inr True
    \<longrightarrow> (batch g1 = [] \<and> sourceIsEmpty g1)
        \<or> (\<exists>g indexed. fetchLoop r dc input g0 = Some (None, g) \<and> batch g = indexed # batch g1
              \<and> get_now r dc (indexedKey r indexed) = Inr None))"
proof (intro conjI impI)
  assume h: "region (ask_of r dc input) input (ExclusiveStartKey input) pages
      \<and> concat (map Items pages) = [A, B, C] \<and> indexIsPartial r input = Inr True
      \<and> get_now r dc (indexedKey r A) = Inr a \<and> get_now r dc (indexedKey r B) = Inr b
      \<and> get_now r dc (indexedKey r C) = Inr c"
  then have "yields r dc input (concat (map Items pages)) [a, b, c]"
    by (simp add: yield_def)
  from search_results_region [OF _ this, of "Suc n"] h
  show "search_results r dc input (4 + n) = Some (Inr ([a, b, c] @ replicate (Suc n) None))"
    by (simp add: numeral_eq_Suc)
next
  assume "search_next r dc input g0 = Some (Inr None, g1) \<and> indexIsPartial r input = Inr True"
  with search_next_sentinel [of r dc input g0 g1]
  show "(batch g1 = [] \<and> sourceIsEmpty g1)
        \<or> (\<exists>g indexed. fetchLoop r dc input g0 = Some (None, g) \<and> batch g = indexed # batch g1
              \<and> get_now r dc (indexedKey r indexed) = Inr None)"
    by auto
qed

lemma search_through_partial_index_example:
  "indexIsPartial indexed_repository index_input = Inr True
   \<and> search_results indexed_repository store_of_three index_input 4
       = Some (Inr [Some [(''id'', Str ''e1''), (''name'', Str ''n'')],
                    Some [(''id'', Str ''e2''), (''name'', Str ''n'')],
                    Some [(''id'', Str ''e3''), (''name'', Str ''n'')], None])
   \<and> search_next indexed_repository store_without_e1 index_input (search_start index_input)
       = Some (Inr None, \<lparr>batch = [[(''id'', Str ''e2'')]], sourceIsEmpty = False,
                          lastEvaluatedKey = Some [(''id'', Str ''e2'')], blockSourceIsEmpty = False\<rparr>)"
  using search_through_partial_index [of indexed_repository store_of_three index_input
      "[first_page, last_page]" "[(''id'', Str ''e1'')]" "[(''id'', Str ''e2'')]"
      "[(''id'', Str ''e3'')]"
      "Some [(''id'', Str ''e1''), (''name'', Str ''n'')]"
      "Some [(''id'', Str ''e2''), (''name'', Str ''n'')]"
      "Some [(''id'', Str ''e3''), (''name'', Str ''n'')]" 0
      "search_start index_input" "search_start index_input"]
  by (simp add: reader_defs fixture_defs)

section \<open>The tracker: what flush sends to the store\<close>

lemma calls_between_attributed:
  "calls_between e w w' = attributed e w' (drop (length (calls w)) (calls w'))"
  by (simp add: calls_between_def attributed_def)

lemma attributed_append: "attributed e w (xs @ ys) = attributed e w xs @ attributed e w ys"
  by (simp add: attributed_def)

lemma dispatch_effect:
  assumes "dispatch r t w = (p, w1)"
  shows "p = length (promises w)"
    and "\<exists>pr. promises w1 = promises w @ [pr] \<and> task_entity (owner pr) = Some (entity t)"
    and "calls w1 = calls w @ map (Pair p) (entry_calls r w t)"
    and "heap w1 = heap w" and "tracked w1 = tracked w" and "flushes w1 = flushes w"
    and "cache w1 = cache w" and "nextRef w1 = nextRef w"
  using assms
  by (auto simp: dispatch_def createItem_def updateItem_def deleteItem_def new_promise_def
      emit_def entry_calls_def split: action.splits sum.splits bool.splits prod.splits)

lemma entry_calls_frame:
  assumes "heap w1 = heap w" "tracked w1 = tracked w"
  shows "entry_calls r w1 t = entry_calls r w t"
  unfolding entry_calls_def entityHasChanged_def assms by (rule refl)

lemma flush_loop_frame:
  "flush_loop r ts w = (ps, w') \<Longrightarrow>
     (\<exists>extra. promises w' = promises w @ extra) \<and> (\<exists>cs. calls w' = calls w @ cs)
     \<and> heap w' = heap w \<and> tracked w' = tracked w \<and> flushes w' = flushes w
     \<and> cache w' = cache w \<and> nextRef w' = nextRef w"
proof (induction ts arbitrary: w ps w')
  case Nil
  then show ?case by simp
next
  case (Cons t ts)
  obtain p w1 where d: "dispatch r t w = (p, w1)" by (cases "dispatch r t w")
  obtain qs w2 where l: "flush_loop r ts w1 = (qs, w2)" by (cases "flush_loop r ts w1")
  from Cons.prems d l have w': "w' = w2" by simp
  from dispatch_effect [OF d] Cons.IH [OF l] show ?case
    unfolding w' by (elim conjE exE) simp
qed

lemma flush_loop_calls:
  "flush_loop r ts w = (ps, w') \<Longrightarrow>
     calls_between e w w' = concat (map (\<lambda>t. if entity t = e then entry_calls r w t else []) ts)"
proof (induction ts arbitrary: w ps w')
  case Nil
  then show ?case by (simp add: calls_between_def)
next
  case (Cons t ts)
  obtain p w1 where d: "dispatch r t w = (p, w1)" by (cases "dispatch r t w")
  obtain qs w2 where l: "flush_loop r ts w1 = (qs, w2)" by (cases "flush_loop r ts w1")
  from Cons.prems d l have w': "w' = w2" by simp
  note de = dispatch_effect [OF d]
  from de(2) obtain pr where pr: "promises w1 = promises w @ [pr]"
    and own: "task_entity (owner pr) = Some (entity t)" by blast
  from flush_loop_frame [OF l] obtain extra cs where
    ex: "promises w2 = promises w1 @ extra" and cs: "calls w2 = calls w1 @ cs" by blast
  have owner_p: "promise_owner w2 p = owner pr"
    using de(1) pr ex by (simp add: promise_owner_def nth_append)
  have first: "attributed e w2 (map (Pair p) (entry_calls r w t))
                = (if entity t = e then entry_calls r w t else [])"
    using owner_p own by (auto simp: attributed_def filter_map o_def)
  have rest: "attributed e w2 cs = calls_between e w1 w2"
    using cs by (simp add: calls_between_attributed)
  have frame: "(\<lambda>t. if entity t = e then entry_calls r w1 t else [])
                = (\<lambda>t. if entity t = e then entry_calls r w t else [])"
    using entry_calls_frame [OF de(4) de(5)] by auto
  have "calls_between e w w2 = attributed e w2 (map (Pair p) (entry_calls r w t) @ cs)"
    using cs de(3) by (simp add: calls_between_attributed)
  also have "\<dots> = (if entity t = e then entry_calls r w t else []) @ calls_between e w1 w2"
    by (simp add: attributed_append first rest)
  finally show ?case
    unfolding w' using Cons.IH [OF l] frame by simp
qed

lemma flush_join_frame:
  "promises (flush_join ps w) = promises w" "calls (flush_join ps w) = calls w"
  "tracked (flush_join ps w) = tracked w" "heap (flush_join ps w) = heap w"
  by (simp_all add: flush_join_def emit_def split: option.splits)

lemma promise_owner_flush_join: "promise_owner (flush_join ps w) p = promise_owner w p"
  by (simp add: promise_owner_def flush_join_frame)

lemma flush_calls:
  "calls_between e w (snd (flush r w))
     = concat (map (\<lambda>t. if entity t = e then entry_calls r w t else []) (map snd (tracked w)))"
proof -
  obtain ps w1 where l: "flush_loop r (map snd (tracked w)) w = (ps, w1)"
    by (cases "flush_loop r (map snd (tracked w)) w")
  have "calls_between e w (snd (flush r w)) = calls_between e w w1"
    using l by (simp add: flush_def calls_between_def promise_owner_flush_join flush_join_frame)
  with flush_loop_calls [OF l] show ?thesis by simp
qed

lemma only_entry:
  "distinct (map fst ts) \<Longrightarrow> list_all (\<lambda>(k, t). entity t = k) ts \<Longrightarrow> map_of ts e = Some t \<Longrightarrow>
     concat (map (\<lambda>t. if entity t = e then f t else []) (map snd ts)) = f t"
proof (induction ts)
  case Nil
  then show ?case by simp
next
  case (Cons a ts)
  obtain k t' where a: "a = (k, t')" by (cases a)
  show ?case
  proof (cases "k = e")
    case True
    with Cons.prems a have t: "t' = t" and ent: "entity t' = e" by auto
    from Cons.prems a True have "e \<notin> fst ` set ts" by auto
    moreover from Cons.prems(2) a have "\<forall>(k, t) \<in> set ts. entity t = k"
      by (simp add: list_all_iff)
    ultimately have "\<forall>x \<in> set ts. entity (snd x) \<noteq> e" by force
    then have "concat (map (\<lambda>t. if entity t = e then f t else []) (map snd ts)) = []"
      by (induction ts) auto
    with a t ent show ?thesis by simp
  next
    case False
    with Cons.prems a have "entity t' \<noteq> e" "map_of ts e = Some t" by auto
    with Cons a show ?thesis by simp
  qed
qed

lemma no_entry:
  "list_all (\<lambda>(k, t). entity t = k) ts \<Longrightarrow> map_of ts e = None \<Longrightarrow>
     concat (map (\<lambda>t. if entity t = e then f t else []) (map snd ts)) = []"
proof (induction ts)
  case Nil
  then show ?case by simp
next
  case (Cons a ts)
  then show ?case by (cases a) (auto split: if_splits)
qed

lemma list_all_update:
  "list_all P al \<Longrightarrow> P (k, v) \<Longrightarrow> list_all P (AList.update k v al)"
  by (induction al) auto

lemma list_all_delete: "list_all P al \<Longrightarrow> list_all P (AList.delete k al)"
  by (induction al) auto

lemma tracked_wf_new_world: "tracked_wf (new_world h)"
  by (simp add: tracked_wf_def new_world_def)

lemma tracked_wf_track: "tracked_wf w \<Longrightarrow> tracked_wf (track r ent w)"
  by (auto simp: tracked_wf_def track_def distinct_update list_all_update split: option.splits)

lemma tracked_wf_delete: "tracked_wf w \<Longrightarrow> tracked_wf (delete ent w)"
  by (auto simp: tracked_wf_def delete_def distinct_update distinct_delete list_all_update
      list_all_delete split: option.splits)

lemma addToCacheByKey_resume_tracked:
  "tracked (snd (addToCacheByKey_resume r key ent awaited w)) = tracked w"
  by (auto simp: addToCacheByKey_resume_def installInCache_def new_promise_def emit_def Let_def
      split: option.splits settled.splits)

lemma tracked_wf_trackNew_resume:
  assumes "tracked_wf w"
  shows "tracked_wf (snd (trackNew_resume r key e awaited w))"
proof -
  obtain out w1 where a: "addToCacheByKey_resume r key (Some e) awaited w = (out, w1)"
    by (cases "addToCacheByKey_resume r key (Some e) awaited w")
  from addToCacheByKey_resume_tracked [of r key "Some e" awaited w] a
  have "tracked w1 = tracked w" by simp
  with assms have "tracked_wf w1" by (simp add: tracked_wf_def)
  then show ?thesis
    using a
    by (cases out)
      (auto simp: trackNew_resume_def tracked_wf_def distinct_update list_all_update)
qed

lemma tracked_wf_trackNew: "tracked_wf w \<Longrightarrow> tracked_wf (snd (trackNew r e w))"
  by (cases "entityKey r (heap w e)") (simp_all add: trackNew_def tracked_wf_trackNew_resume)

lemma tracked_wf_entity:
  "tracked_wf w \<Longrightarrow> map_of (tracked w) e = Some t \<Longrightarrow> entity t = e"
  by (auto simp: tracked_wf_def list_all_iff dest!: map_of_SomeD)

lemma flush_calls_tracked:
  assumes "tracked_wf w" "map_of (tracked w) e = Some t"
  shows "calls_between e w (snd (flush r w)) = entry_calls r w t"
  using assms only_entry [of "tracked w" e t "entry_calls r w"]
  by (simp add: flush_calls tracked_wf_def)

lemma flush_calls_untracked:
  assumes "tracked_wf w" "map_of (tracked w) e = None"
  shows "calls_between e w (snd (flush r w)) = []"
  using assms no_entry [of "tracked w" e "entry_calls r w"]
  by (simp add: flush_calls tracked_wf_def)

lemmas machine_defs = new_world_def promise_state_def promise_owner_def new_promise_def settle_def
  emit_def DynamoRepository_get_def CachedDynamoRepository_get_def clear_def keyIsCached_def
  getFromCache_def installInCache_def addToCacheByKey_def addToCacheByKey_resume_def entityKey_def addToCache_def
  track_def trackNew_def trackNew_resume_def delete_def Managed_get_resume_def createItem_def entityHasChanged_def
  updateItem_def deleteItem_def dispatch_def all_fulfilled_def flush_join_def flush_def
  flush_wake_def wake_flushes_def continue_def respond_def getEntityKey_def schema_hashKey_def
  schema_rangeKey_def attr_def set_attr_def new_entity_def assign_def Let_def

lemmas tracker_fixture_defs = stored_item_def updated_item_def entity_key_def empty_world_def
  plain_repository_def plain_config_def render_def

lemma world_reading_eq:
  "world_reading =
     \<lparr>heap = (\<lambda>e. []), nextRef = 0,
      promises = [\<lparr>pstate = Pending, owner = GetTask entity_key\<rparr>],
      calls = [(0, GetItem ''tableName'' entity_key)],
      cache = [Str ''entityId'' \<mapsto> [Undefined \<mapsto> 0]],
      tracked = [], events = [], flushes = []\<rparr>"
  by (simp add: world_reading_def machine_defs tracker_fixture_defs)

lemma world_after_get_eq:
  "world_after_get =
     \<lparr>heap = (\<lambda>e. [])(0 := stored_item), nextRef = 1,
      promises = [\<lparr>pstate = Fulfilled (Some 0), owner = GetTask entity_key\<rparr>],
      calls = [(0, GetItem ''tableName'' entity_key)],
      cache = [Str ''entityId'' \<mapsto> [Undefined \<mapsto> 0]],
      tracked = [(0, \<lparr>action = UPDATE, initialStatus = Some ''id:entityId;updated:false;'', entity = 0\<rparr>)],
      events = [], flushes = []\<rparr>"
  by (simp add: world_after_get_def machine_defs tracker_fixture_defs)

lemma world_after_trackNew_eq:
  "world_after_trackNew =
     \<lparr>heap = (\<lambda>e. [])(0 := stored_item), nextRef = 1,
      promises = [\<lparr>pstate = Fulfilled (Some 0), owner = NoTask\<rparr>],
      calls = [],
      cache = [Str ''entityId'' \<mapsto> [Undefined \<mapsto> 0]],
      tracked = [(0, \<lparr>action = CREATE, initialStatus = None, entity = 0\<rparr>)],
      events = [], flushes = []\<rparr>"
  by (simp add: world_after_trackNew_def trackNew_resume_def machine_defs tracker_fixture_defs)

lemma world_after_miss_eq:
  "world_after_miss =
     \<lparr>heap = (\<lambda>e. []), nextRef = 0,
      promises = [\<lparr>pstate = Fulfilled None, owner = GetTask entity_key\<rparr>],
      calls = [(0, GetItem ''tableName'' entity_key)],
      cache = [Str ''entityId'' \<mapsto> [Undefined \<mapsto> 0]],
      tracked = [], events = [], flushes = []\<rparr>"
  by (simp add: world_after_miss_def machine_defs tracker_fixture_defs)



text \<open>
  C2. \<open>track\<close>, which every read path calls, enters an untracked entity as UPDATE with the
  serialised form it has then. For an entity tracked as UPDATE, \<open>flush\<close> compares the
  entity's serialised form now with that snapshot: when they are equal it makes no call on
  the store for the entity, when they differ it makes one put, of the whole marshalled
  entity as it is now.
\<close>

theorem flush_puts_changed_update_once:
  "(map_of (tracked w0) e = None \<longrightarrow>
      map_of (tracked (track r (Some e) w0)) e
        = Some \<lparr>action = UPDATE, initialStatus = Some (JSON_stringify r (heap w0 e)), entity = e\<rparr>)
   \<and> (tracked_wf w \<and> map_of (tracked w) e = Some t \<and> action t = UPDATE
        \<and> initialStatus t = Some snapshot \<longrightarrow>
      calls_between e w (snd (flush r w))
        = (if JSON_stringify r (heap w e) = snapshot then []
           else [PutItem (tableName (config r)) (marshal (config r) (heap w e))]))"
proof (intro conjI impI)
  assume "map_of (tracked w0) e = None"
  then show "map_of (tracked (track r (Some e) w0)) e
        = Some \<lparr>action = UPDATE, initialStatus = Some (JSON_stringify r (heap w0 e)), entity = e\<rparr>"
    by (simp add: track_def update_conv')
next
  assume h: "tracked_wf w \<and> map_of (tracked w) e = Some t \<and> action t = UPDATE
        \<and> initialStatus t = Some snapshot"
  then have ent: "entity t = e" using tracked_wf_entity by blast
  have "entry_calls r w t
        = (if JSON_stringify r (heap w e) = snapshot then []
           else [PutItem (tableName (config r)) (marshal (config r) (heap w e))])"
    using h ent by (simp add: entry_calls_def entityHasChanged_def)
  with h show "calls_between e w (snd (flush r w))
        = (if JSON_stringify r (heap w e) = snapshot then []
           else [PutItem (tableName (config r)) (marshal (config r) (heap w e))])"
    by (simp add: flush_calls_tracked)
qed

theorem flush_puts_changed_update_once_witness:
  "map_of (tracked empty_world) 0 = None
   \<and> map_of (tracked (track plain_repository (Some 0) empty_world)) 0
       = Some \<lparr>action = UPDATE, initialStatus = Some (render (heap empty_world 0)), entity = 0\<rparr>
   \<and> tracked_wf world_after_get
   \<and> map_of (tracked world_after_get) 0
       = Some \<lparr>action = UPDATE, initialStatus = Some (render stored_item), entity = 0\<rparr>
   \<and> calls_between 0 world_after_get (snd (flush plain_repository world_after_get)) = []
   \<and> tracked_wf (assign 0 updated_item world_after_get)
   \<and> calls_between 0 (assign 0 updated_item world_after_get)
        (snd (flush plain_repository (assign 0 updated_item world_after_get)))
       = [PutItem ''tableName'' updated_item]"
  using flush_puts_changed_update_once [of empty_world 0 plain_repository world_after_get
      "\<lparr>action = UPDATE, initialStatus = Some (render stored_item), entity = 0\<rparr>"
      "render stored_item"]
    flush_puts_changed_update_once [of empty_world 0 plain_repository
      "assign 0 updated_item world_after_get"
      "\<lparr>action = UPDATE, initialStatus = Some (render stored_item), entity = 0\<rparr>"
      "render stored_item"]
  by (simp add: world_after_get_eq tracked_wf_def assign_def tracker_fixture_defs new_world_def)

lemma constructed_entityKey:
  assumes "new_repository cfg stringify = Inr r"
  shows "\<exists>Key. entityKey r v = Inr Key"
proof -
  from assms obtain h where h: "schema_hashKey (keySchema cfg) = Inr h" and cfg: "config r = cfg"
    by (auto simp: new_repository_def split: sum.splits)
  show ?thesis
    by (cases "schema_rangeKey (keySchema cfg)")
      (simp_all add: entityKey_def getEntityKey_def cfg h Let_def)
qed

text \<open>
  C5. \<open>delete\<close> of an entity tracked as CREATE takes it out of the tracked table, and the
  next \<open>flush\<close> makes no call on the store for it. \<open>delete\<close> of an entity in any other
  state, tracked or not, sets its action to DELETE, and the next \<open>flush\<close> makes one
  delete call with the key derived from the entity. A repository that its constructor has
  accepted derives a key from every entity.
\<close>

theorem delete_cancels_create_else_marks_delete:
  "(tracked_wf w \<and> map_of (tracked w) e = Some t \<and> action t = CREATE \<longrightarrow>
      map_of (tracked (delete (Some e) w)) e = None
      \<and> calls_between e (delete (Some e) w) (snd (flush r (delete (Some e) w))) = [])
   \<and> (tracked_wf w \<and> (\<forall>t. map_of (tracked w) e = Some t \<longrightarrow> action t \<noteq> CREATE)
        \<and> entityKey r (heap w e) = Inr Key \<longrightarrow>
      map_of (tracked (delete (Some e) w)) e
        = Some \<lparr>action = DELETE, initialStatus = None, entity = e\<rparr>
      \<and> calls_between e (delete (Some e) w) (snd (flush r (delete (Some e) w)))
          = [DeleteItem (tableName (config r)) Key])
   \<and> (new_repository cfg stringify = Inr r \<longrightarrow> (\<exists>Key. entityKey r (heap w e) = Inr Key))"
proof (intro conjI impI)
  assume "new_repository cfg stringify = Inr r"
  then show "\<exists>Key. entityKey r (heap w e) = Inr Key"
    by (rule constructed_entityKey)
next
  assume h: "tracked_wf w \<and> map_of (tracked w) e = Some t \<and> action t = CREATE"
  then show gone: "map_of (tracked (delete (Some e) w)) e = None"
    by (simp add: delete_def delete_conv')
  from h have "tracked_wf (delete (Some e) w)" by (simp add: tracked_wf_delete)
  then show "calls_between e (delete (Some e) w) (snd (flush r (delete (Some e) w))) = []"
    using gone by (rule flush_calls_untracked)
next
  assume h: "tracked_wf w \<and> (\<forall>t. map_of (tracked w) e = Some t \<longrightarrow> action t \<noteq> CREATE)
        \<and> entityKey r (heap w e) = Inr Key"
  then have marked: "tracked (delete (Some e) w)
      = AList.update e \<lparr>action = DELETE, initialStatus = None, entity = e\<rparr> (tracked w)"
    and hp: "heap (delete (Some e) w) = heap w"
    by (auto simp: delete_def split: option.splits)
  then show entry: "map_of (tracked (delete (Some e) w)) e
        = Some \<lparr>action = DELETE, initialStatus = None, entity = e\<rparr>"
    by (simp add: update_conv')
  from h have "tracked_wf (delete (Some e) w)" by (simp add: tracked_wf_delete)
  from flush_calls_tracked [OF this entry, of r] h hp
  show "calls_between e (delete (Some e) w) (snd (flush r (delete (Some e) w)))
          = [DeleteItem (tableName (config r)) Key]"
    by (simp add: entry_calls_def)
qed

theorem delete_cancels_create_else_marks_delete_witness:
  "new_repository plain_config render = Inr plain_repository
   \<and> tracked_wf world_after_trackNew
   \<and> map_of (tracked world_after_trackNew) 0 = Some \<lparr>action = CREATE, initialStatus = None, entity = 0\<rparr>
   \<and> map_of (tracked (delete (Some 0) world_after_trackNew)) 0 = None
   \<and> calls_between 0 (delete (Some 0) world_after_trackNew)
        (snd (flush plain_repository (delete (Some 0) world_after_trackNew))) = []
   \<and> tracked_wf world_after_get
   \<and> map_of (tracked world_after_get) 0
       = Some \<lparr>action = UPDATE, initialStatus = Some (render stored_item), entity = 0\<rparr>
   \<and> entityKey plain_repository (heap world_after_get 0) = Inr entity_key
   \<and> map_of (tracked (delete (Some 0) world_after_get)) 0
       = Some \<lparr>action = DELETE, initialStatus = None, entity = 0\<rparr>
   \<and> calls_between 0 (delete (Some 0) world_after_get)
        (snd (flush plain_repository (delete (Some 0) world_after_get)))
       = [DeleteItem ''tableName'' entity_key]
   \<and> map_of (tracked (snd (new_entity stored_item empty_world))) 0 = None
   \<and> calls_between 0 (delete (Some 0) (snd (new_entity stored_item empty_world)))
        (snd (flush plain_repository (delete (Some 0) (snd (new_entity stored_item empty_world)))))
       = [DeleteItem ''tableName'' entity_key]"
  using delete_cancels_create_else_marks_delete
      [where w = world_after_trackNew and e = 0 and r = plain_repository
         and t = "\<lparr>action = CREATE, initialStatus = None, entity = 0\<rparr>"]
    delete_cancels_create_else_marks_delete
      [where w = world_after_get and e = 0 and r = plain_repository and Key = entity_key
         and cfg = plain_config and stringify = render]
    delete_cancels_create_else_marks_delete
      [where w = "snd (new_entity stored_item empty_world)" and e = 0 and r = plain_repository
         and Key = entity_key]
  by (simp add: world_after_get_eq world_after_trackNew_eq tracked_wf_def tracker_fixture_defs
      new_world_def new_entity_def entityKey_def getEntityKey_def schema_hashKey_def
      schema_rangeKey_def set_attr_def attr_def new_repository_def)

lemma respond_tracked: "tracked (respond r p resp w) = tracked w"
  by (simp add: respond_def wake_flushes_def continue_def settle_def emit_def
      split: task.splits response.splits option.splits)

lemma CachedDynamoRepository_get_fresh:
  assumes "\<not> keyIsCached r key w" "CachedDynamoRepository_get r key w = (p, w1)"
  shows "p = length (promises w)"
    and "promises w1 = promises w @ [\<lparr>pstate = Pending, owner = GetTask key\<rparr>]"
    and "calls w1 = calls w @ [(p, GetItem (tableName (config r)) key)]"
    and "tracked w1 = tracked w" and "heap w1 = heap w" and "events w1 = events w"
    and "flushes w1 = flushes w"
    and "getFromCache r key w1 = Some p"
  using assms
  by (auto simp: keyIsCached_def CachedDynamoRepository_get_def DynamoRepository_get_def
      new_promise_def getFromCache_def Let_def split: option.splits if_splits)

lemma flush_loop_issued:
  "flush_loop r ts w = (ps, w') \<Longrightarrow>
     map snd (drop (length (calls w)) (calls w')) = concat (map (entry_calls r w) ts)"
proof (induction ts arbitrary: w ps w')
  case Nil
  then show ?case by simp
next
  case (Cons t ts)
  obtain p w1 where d: "dispatch r t w = (p, w1)" by (cases "dispatch r t w")
  obtain qs w2 where l: "flush_loop r ts w1 = (qs, w2)" by (cases "flush_loop r ts w1")
  from Cons.prems d l have w': "w' = w2" by simp
  note de = dispatch_effect [OF d]
  from flush_loop_frame [OF l] obtain cs where cs: "calls w2 = calls w1 @ cs" by blast
  have frame: "entry_calls r w1 = entry_calls r w"
    using entry_calls_frame [OF de(4) de(5)] by auto
  from Cons.IH [OF l] cs have "map snd cs = concat (map (entry_calls r w) ts)"
    by (simp add: frame)
  then show ?case
    unfolding w' using cs de(3) by (simp add: o_def)
qed

lemma issued_by_flush_entries:
  "issued_by_flush r w = concat (map (entry_calls r w) (map snd (tracked w)))"
proof -
  obtain ps w1 where l: "flush_loop r (map snd (tracked w)) w = (ps, w1)"
    by (cases "flush_loop r (map snd (tracked w)) w")
  with flush_loop_issued [OF l] show ?thesis
    by (simp add: issued_by_flush_def flush_def flush_join_frame)
qed

lemma issued_by_flush_frame:
  "heap w1 = heap w \<Longrightarrow> tracked w1 = tracked w \<Longrightarrow> issued_by_flush r w1 = issued_by_flush r w"
  using entry_calls_frame [of w1 w r] by (simp add: issued_by_flush_entries cong: map_cong)

lemma respond_absent_heap:
  "heap (respond r p (Success None) w) = heap w"
  by (simp add: respond_def wake_flushes_def continue_def settle_def emit_def
      split: task.splits)

text \<open>
  C9. \<open>track\<close> and \<open>delete\<close> of undefined change nothing. So the managed \<open>get\<close> of a key
  that the store has no item for, once the store has answered, returns undefined and
  leaves the tracked table as it was, and a \<open>flush\<close> after it makes the calls on the store
  that it would have made without the read.
\<close>

theorem absent_entity_leaves_tracker_alone:
  "track r None w = w \<and> delete None w = w
   \<and> (Managed_get_resume r p w = (Returned None, w') \<longrightarrow> w' = w)
   \<and> (\<not> keyIsCached r key w \<and> CachedDynamoRepository_get r key w = (p, wg) \<longrightarrow>
        Managed_get_resume r p (respond r p (Success None) wg)
          = (Returned None, respond r p (Success None) wg)
        \<and> tracked (respond r p (Success None) wg) = tracked w
        \<and> issued_by_flush r (respond r p (Success None) wg) = issued_by_flush r w)"
proof (intro conjI impI)
  show "track r None w = w" by (simp add: track_def)
  show "delete None w = w" by (simp add: delete_def)
next
  assume "Managed_get_resume r p w = (Returned None, w')"
  then show "w' = w"
    by (auto simp: Managed_get_resume_def track_def split: settled.splits)
next
  assume h: "\<not> keyIsCached r key w \<and> CachedDynamoRepository_get r key w = (p, wg)"
  note fresh = CachedDynamoRepository_get_fresh [OF conjunct1 [OF h] conjunct2 [OF h]]
  let ?w2 = "respond r p (Success None) wg"
  have st: "promise_state ?w2 p = Fulfilled None"
    using fresh(1,2)
    by (simp add: respond_def promise_state_def promise_owner_def continue_def settle_def
        wake_flushes_def nth_append)
  then show "Managed_get_resume r p ?w2 = (Returned None, ?w2)"
    by (simp add: Managed_get_resume_def track_def)
  show tr: "tracked ?w2 = tracked w"
    using fresh(4) by (simp add: respond_tracked)
  have "heap ?w2 = heap w"
    using fresh(5) by (simp add: respond_absent_heap)
  then show "issued_by_flush r ?w2 = issued_by_flush r w"
    using tr by (rule issued_by_flush_frame)
qed

theorem absent_entity_leaves_tracker_alone_witness:
  "\<not> keyIsCached plain_repository entity_key empty_world
   \<and> world_after_miss
       = respond plain_repository 0 (Success None)
           (snd (CachedDynamoRepository_get plain_repository entity_key empty_world))
   \<and> Managed_get_resume plain_repository 0 world_after_miss = (Returned None, world_after_miss)
   \<and> tracked world_after_miss = []
   \<and> issued_by_flush plain_repository world_after_miss = []"
  using absent_entity_leaves_tracker_alone
      [where r = plain_repository and w = empty_world and key = entity_key and p = 0
         and wg = "snd (CachedDynamoRepository_get plain_repository entity_key empty_world)"
         and w' = empty_world]
    absent_entity_leaves_tracker_alone
      [where r = plain_repository and w = world_after_miss and p = 0 and w' = world_after_miss]
  by (simp add: world_after_miss_eq machine_defs tracker_fixture_defs issued_by_flush_def)

text \<open>
  \<open>trackNew\<close> for an entity whose key is being read: the method waits for the read, and
  when the store answers that it has no item the method goes on, caches the entity in
  place of the miss and tracks it as \<open>CREATE\<close>.
\<close>

lemma trackNew_resumes_after_pending_read:
  "fst (trackNew plain_repository 0 (snd (new_entity stored_item world_reading))) = Suspended
   \<and> snd (trackNew plain_repository 0 (snd (new_entity stored_item world_reading)))
       = snd (new_entity stored_item world_reading)
   \<and> fst (trackNew_resume plain_repository entity_key 0 (Some 0)
             (respond plain_repository 0 (Success None) (snd (new_entity stored_item world_reading))))
       = Returned ()
   \<and> tracked (snd (trackNew_resume plain_repository entity_key 0 (Some 0)
             (respond plain_repository 0 (Success None) (snd (new_entity stored_item world_reading)))))
       = [(0, \<lparr>action = CREATE, initialStatus = None, entity = 0\<rparr>)]
   \<and> getFromCache plain_repository entity_key
        (snd (trackNew_resume plain_repository entity_key 0 (Some 0)
             (respond plain_repository 0 (Success None) (snd (new_entity stored_item world_reading)))))
       = Some 1
   \<and> promise_state
        (snd (trackNew_resume plain_repository entity_key 0 (Some 0)
             (respond plain_repository 0 (Success None) (snd (new_entity stored_item world_reading))))) 1
       = Fulfilled (Some 0)"
  by (simp add: world_reading_eq machine_defs tracker_fixture_defs)

section \<open>Failures during flush\<close>

text \<open>
  C6, at the failing input. An entity is read, deleted and flushed, and the store fails
  the delete call: the only event is \<open>error.flushing\<close>; no \<open>error.deleting\<close> is emitted,
  since \<open>deleteItem\<close> returns the store's promise without awaiting it and its \<open>catch\<close>
  never sees the rejection. The same failure of the put of an update or of a create is
  reported with \<open>error.updating\<close> or \<open>error.creating\<close> before \<open>error.flushing\<close>.
\<close>

theorem deleteItem_store_failure_is_not_reported:
  "events (respond plain_repository 1 (Failure boom)
             (snd (flush plain_repository (delete (Some 0) world_after_get))))
     = [ErrorFlushing]
   \<and> calls (snd (flush plain_repository (delete (Some 0) world_after_get)))
       = [(0, GetItem ''tableName'' entity_key), (1, DeleteItem ''tableName'' entity_key)]
   \<and> promise_state (respond plain_repository 1 (Failure boom)
                      (snd (flush plain_repository (delete (Some 0) world_after_get)))) 1
       = Rejected boom
   \<and> events (respond plain_repository 1 (Failure boom)
               (snd (flush plain_repository (assign 0 updated_item world_after_get))))
       = [ErrorUpdating boom 0, ErrorFlushing]
   \<and> events (respond plain_repository 1 (Failure boom)
               (snd (flush plain_repository world_after_trackNew)))
       = [ErrorCreating boom 0, ErrorFlushing]"
  by (simp add: world_after_get_eq world_after_trackNew_eq machine_defs tracker_fixture_defs)


lemma continue_length: "length (promises (continue r p resp w)) = length (promises w)"
  by (simp add: continue_def settle_def emit_def split: task.splits response.splits option.splits)

lemma continue_other: "q \<noteq> p \<Longrightarrow> promise_state (continue r p resp w) q = promise_state w q"
  by (simp add: continue_def settle_def emit_def promise_state_def
      split: task.splits response.splits option.splits)

lemma continue_failure:
  "p < length (promises w) \<Longrightarrow> promise_owner w p \<noteq> NoTask \<Longrightarrow>
     promise_state (continue r p (Failure er) w) p = Rejected er"
  by (simp add: continue_def settle_def emit_def promise_state_def promise_owner_def
      split: task.splits)












section \<open>Offering a value for a cached key\<close>

lemma getFromCache_emit: "getFromCache r key (emit ev w) = getFromCache r key w"
  by (simp add: getFromCache_def emit_def)

lemma installInCache_entry:
  "getFromCache r key (installInCache r key e w) = Some (length (promises w))"
  "promise_state (installInCache r key e w) (length (promises w)) = Fulfilled e"
  "events (installInCache r key e w) = events w"
  by (auto simp: installInCache_def getFromCache_def new_promise_def promise_state_def Let_def
      split: option.splits)

text \<open>
  C4, as stated, fails for a cached miss. After a \<open>get\<close> of a key that the store has no
  item for, the cache holds a promise resolved with undefined; offering an entity for
  that key puts a new promise in its place and emits nothing.
\<close>

theorem cached_miss_is_overwritten_counterexample:
  "getFromCache plain_repository entity_key (snd (new_entity stored_item world_after_miss)) = Some 0
   \<and> promise_state (snd (new_entity stored_item world_after_miss)) 0 = Fulfilled None
   \<and> fst (addToCacheByKey plain_repository entity_key (Some 0)
             (snd (new_entity stored_item world_after_miss))) = Returned ()
   \<and> getFromCache plain_repository entity_key
        (snd (addToCacheByKey plain_repository entity_key (Some 0)
                (snd (new_entity stored_item world_after_miss)))) = Some 1
   \<and> promise_state
        (snd (addToCacheByKey plain_repository entity_key (Some 0)
                (snd (new_entity stored_item world_after_miss)))) 1 = Fulfilled (Some 0)
   \<and> events
        (snd (addToCacheByKey plain_repository entity_key (Some 0)
                (snd (new_entity stored_item world_after_miss)))) = []"
  by (simp add: world_after_miss_eq machine_defs tracker_fixture_defs)

text \<open>
  C4, amended. For a key whose cache entry is resolved with an entity, offering a
  different value (another entity or undefined) through \<open>addToCacheByKey\<close>, \<open>addToCache\<close>,
  the installation of \<open>getList\<close> or that of \<open>search\<close> leaves the cache as it is, emits
  \<open>cacheKeyInUse\<close> with the cache's entry and the offered value, and does not throw;
  \<open>getList\<close> and \<open>search\<close> hand out the cache's entry. For a key whose cache entry is
  resolved with undefined (a cached miss), the offered value takes the entry's place
  and no event is emitted.
\<close>

theorem cache_keeps_present_value_on_collision:
  "(getFromCache r key w = Some p \<and> promise_state w p = Fulfilled (Some cached)
      \<and> offered \<noteq> Some cached
    \<longrightarrow> addToCacheByKey r key offered w = (Returned (), emit (CacheKeyInUse (Some p) offered) w)
        \<and> getList_install r key offered w
            = (Returned (Some p), emit (CacheKeyInUse (Some p) offered) w)
        \<and> cache (emit (CacheKeyInUse (Some p) offered) w) = cache w
        \<and> promises (emit (CacheKeyInUse (Some p) offered) w) = promises w
        \<and> events (emit (CacheKeyInUse (Some p) offered) w)
            = events w @ [CacheKeyInUse (Some p) offered])
   \<and> (getFromCache r key w = Some p \<and> promise_state w p = Fulfilled (Some cached)
      \<and> entityKey r (heap w e) = Inr key \<and> e \<noteq> cached
    \<longrightarrow> addToCache r e w = (Returned (), emit (CacheKeyInUse (Some p) (Some e)) w)
        \<and> search_install r e w = (Returned (Some p), emit (CacheKeyInUse (Some p) (Some e)) w))
   \<and> (getFromCache r key w = Some p \<and> promise_state w p = Fulfilled None
    \<longrightarrow> fst (addToCacheByKey r key offered w) = Returned ()
        \<and> getFromCache r key (snd (addToCacheByKey r key offered w)) = Some (length (promises w))
        \<and> promise_state (snd (addToCacheByKey r key offered w)) (length (promises w))
            = Fulfilled offered
        \<and> events (snd (addToCacheByKey r key offered w)) = events w)"
proof (intro conjI impI)
  assume h: "getFromCache r key w = Some p \<and> promise_state w p = Fulfilled (Some cached)
      \<and> offered \<noteq> Some cached"
  then show a: "addToCacheByKey r key offered w = (Returned (), emit (CacheKeyInUse (Some p) offered) w)"
    by (auto simp: addToCacheByKey_def addToCacheByKey_resume_def)
  from h a have "addToCacheByKey_resume r key offered (Some p) w
            = (Returned (), emit (CacheKeyInUse (Some p) offered) w)"
    by (simp add: addToCacheByKey_def)
  with h show "getList_install r key offered w
            = (Returned (Some p), emit (CacheKeyInUse (Some p) offered) w)"
    by (simp add: getList_install_def getList_install_resume_def getFromCache_emit)
  show "cache (emit (CacheKeyInUse (Some p) offered) w) = cache w"
    and "promises (emit (CacheKeyInUse (Some p) offered) w) = promises w"
    and "events (emit (CacheKeyInUse (Some p) offered) w) = events w @ [CacheKeyInUse (Some p) offered]"
    by (simp_all add: emit_def)
next
  assume h: "getFromCache r key w = Some p \<and> promise_state w p = Fulfilled (Some cached)
      \<and> entityKey r (heap w e) = Inr key \<and> e \<noteq> cached"
  then have a: "addToCacheByKey r key (Some e) w = (Returned (), emit (CacheKeyInUse (Some p) (Some e)) w)"
    by (auto simp: addToCacheByKey_def addToCacheByKey_resume_def)
  with h show "addToCache r e w = (Returned (), emit (CacheKeyInUse (Some p) (Some e)) w)"
    by (simp add: addToCache_def)
  from h a have "addToCacheByKey_resume r key (Some e) (Some p) w
            = (Returned (), emit (CacheKeyInUse (Some p) (Some e)) w)"
    by (simp add: addToCacheByKey_def)
  with h show "search_install r e w = (Returned (Some p), emit (CacheKeyInUse (Some p) (Some e)) w)"
    by (simp add: search_install_def search_install_resume_def getFromCache_emit)
next
  assume h: "getFromCache r key w = Some p \<and> promise_state w p = Fulfilled None"
  then have a: "addToCacheByKey r key offered w = (Returned (), installInCache r key offered w)"
    by (simp add: addToCacheByKey_def addToCacheByKey_resume_def)
  show "fst (addToCacheByKey r key offered w) = Returned ()"
    and "getFromCache r key (snd (addToCacheByKey r key offered w)) = Some (length (promises w))"
    and "promise_state (snd (addToCacheByKey r key offered w)) (length (promises w)) = Fulfilled offered"
    and "events (snd (addToCacheByKey r key offered w)) = events w"
    by (simp_all add: a installInCache_entry)
qed

theorem cache_keeps_present_value_on_collision_witness:
  "getFromCache plain_repository entity_key (snd (new_entity other_item world_after_get)) = Some 0
   \<and> promise_state (snd (new_entity other_item world_after_get)) 0 = Fulfilled (Some 0)
   \<and> entityKey plain_repository (heap (snd (new_entity other_item world_after_get)) 1) = Inr entity_key
   \<and> addToCacheByKey plain_repository entity_key (Some 1) (snd (new_entity other_item world_after_get))
       = (Returned (), emit (CacheKeyInUse (Some 0) (Some 1)) (snd (new_entity other_item world_after_get)))
   \<and> addToCache plain_repository 1 (snd (new_entity other_item world_after_get))
       = (Returned (), emit (CacheKeyInUse (Some 0) (Some 1)) (snd (new_entity other_item world_after_get)))
   \<and> search_install plain_repository 1 (snd (new_entity other_item world_after_get))
       = (Returned (Some 0), emit (CacheKeyInUse (Some 0) (Some 1)) (snd (new_entity other_item world_after_get)))
   \<and> getList_install plain_repository entity_key None world_after_get
       = (Returned (Some 0), emit (CacheKeyInUse (Some 0) None) world_after_get)
   \<and> getFromCache plain_repository entity_key world_after_miss = Some 0
   \<and> promise_state world_after_miss 0 = Fulfilled None
   \<and> getFromCache plain_repository entity_key
        (snd (addToCacheByKey plain_repository entity_key (Some 7) world_after_miss)) = Some 1
   \<and> events (snd (addToCacheByKey plain_repository entity_key (Some 7) world_after_miss)) = []"
  using cache_keeps_present_value_on_collision
      [where r = plain_repository and key = entity_key
         and w = "snd (new_entity other_item world_after_get)" and p = 0 and cached = 0
         and offered = "Some 1" and e = 1]
    cache_keeps_present_value_on_collision
      [where r = plain_repository and key = entity_key and w = world_after_get and p = 0
         and cached = 0 and offered = None and e = 1]
    cache_keeps_present_value_on_collision
      [where r = plain_repository and key = entity_key and w = world_after_miss and p = 0
         and offered = "Some 7"]
  by (simp add: world_after_get_eq world_after_miss_eq machine_defs tracker_fixture_defs
      other_item_def)

section \<open>Single flight and memoized failures\<close>

lemma getFromCache_same_entry:
  assumes "reads_entry_of r key (GetItem t k')"
  shows "getFromCache r k' w = getFromCache r key w"
proof -
  from assms have "attr k' (hashKey r) = attr key (hashKey r)"
    and "attr_opt k' (rangeKey r) = attr_opt key (rangeKey r)"
    by simp_all
  then show ?thesis
    unfolding getFromCache_def by (simp only:)
qed

lemma getFromCache_SomeD:
  "getFromCache r key w = Some q \<Longrightarrow>
     \<exists>b. cache w (attr key (hashKey r)) = Some b \<and> b (attr_opt key (rangeKey r)) = Some q"
  by (cases "cache w (attr key (hashKey r))") (simp_all add: getFromCache_def)

lemma get_hit:
  assumes "getFromCache r key w = Some q"
  shows "CachedDynamoRepository_get r key w = (q, w)"
proof -
  from getFromCache_SomeD [OF assms] obtain b where
    "cache w (attr key (hashKey r)) = Some b" "b (attr_opt key (rangeKey r)) = Some q"
    by blast
  then show ?thesis
    by (simp add: CachedDynamoRepository_get_def Let_def)
qed

lemma get_miss_world:
  assumes "getFromCache r key w = None"
  shows "CachedDynamoRepository_get r key w =
     (length (promises w),
      w\<lparr>promises := promises w @ [\<lparr>pstate = Pending, owner = GetTask key\<rparr>],
        calls := calls w @ [(length (promises w), GetItem (tableName (config r)) key)],
        cache := (cache w)(attr key (hashKey r) \<mapsto>
                   (case cache w (attr key (hashKey r)) of None \<Rightarrow> Map.empty | Some b \<Rightarrow> b)
                     (attr_opt key (rangeKey r) \<mapsto> length (promises w)))\<rparr>)"
proof (cases "cache w (attr key (hashKey r))")
  case None
  then show ?thesis
    by (simp add: CachedDynamoRepository_get_def DynamoRepository_get_def new_promise_def Let_def)
next
  case (Some b)
  with assms have "b (attr_opt key (rangeKey r)) = None"
    by (simp add: getFromCache_def)
  with Some show ?thesis
    by (simp add: CachedDynamoRepository_get_def DynamoRepository_get_def new_promise_def Let_def)
qed

lemma get_miss:
  assumes "getFromCache r key w = None"
  shows "CachedDynamoRepository_get r key w
           = (length (promises w), snd (CachedDynamoRepository_get r key w))"
    and "promises (snd (CachedDynamoRepository_get r key w))
           = promises w @ [\<lparr>pstate = Pending, owner = GetTask key\<rparr>]"
    and "calls (snd (CachedDynamoRepository_get r key w))
           = calls w @ [(length (promises w), GetItem (tableName (config r)) key)]"
    and "getFromCache r key (snd (CachedDynamoRepository_get r key w)) = Some (length (promises w))"
  by (simp_all add: get_miss_world [OF assms] getFromCache_def)

lemma get_other_entry:
  assumes "\<not> reads_entry_of r key (GetItem t k')"
  shows "getFromCache r key (snd (CachedDynamoRepository_get r k' w)) = getFromCache r key w"
proof (cases "getFromCache r k' w")
  case (Some q)
  then show ?thesis by (simp add: get_hit)
next
  case None
  show ?thesis
  proof (cases "attr key (hashKey r) = attr k' (hashKey r)")
    case True
    with assms have "attr_opt key (rangeKey r) \<noteq> attr_opt k' (rangeKey r)"
      by auto
    with True show ?thesis
      by (cases "cache w (attr k' (hashKey r))")
        (simp_all add: get_miss_world [OF None] getFromCache_def)
  next
    case False
    then show ?thesis
      by (simp add: get_miss_world [OF None] getFromCache_def)
  qed
qed

lemma get_keeps_entry:
  assumes "getFromCache r key w = Some q"
  shows "getFromCache r key (snd (CachedDynamoRepository_get r k' w)) = Some q"
proof (cases "reads_entry_of r key (GetItem [] k')")
  case True
  then have "getFromCache r k' w = Some q"
    using assms by (simp only: getFromCache_same_entry)
  then show ?thesis using assms by (simp add: get_hit)
next
  case False
  then show ?thesis using assms by (simp only: get_other_entry)
qed

lemma respond_cache: "cache (respond r p resp w) = cache w"
  by (simp add: respond_def wake_flushes_def continue_def settle_def emit_def
      split: task.splits response.splits option.splits)


lemma respond_getFromCache: "getFromCache r key (respond r p resp w) = getFromCache r key w"
  by (simp add: getFromCache_def respond_cache)

lemma run_step_keeps_entry:
  "getFromCache r key w = Some q \<Longrightarrow> getFromCache r key (run_step r w s) = Some q"
  by (cases s) (simp_all add: get_keeps_entry respond_getFromCache)

lemma run_keeps_entry:
  "getFromCache r key w = Some q \<Longrightarrow> getFromCache r key (run r steps w) = Some q"
  unfolding run_def
  by (induction steps arbitrary: w) (simp_all add: run_step_keeps_entry)

lemma run_append: "run r (xs @ ys) w = run r ys (run r xs w)"
  by (simp add: run_def)





lemma get_after_clear:
  "fst (CachedDynamoRepository_get r k (clear w)) = length (promises w)"
  "calls (snd (CachedDynamoRepository_get r k (clear w)))
     = calls w @ [(length (promises w), GetItem (tableName (config r)) k)]"
proof -
  have none: "getFromCache r k (clear w) = None"
    by (simp add: getFromCache_def clear_def)
  have "promises (clear w) = promises w"
    by (simp add: clear_def)
  then show "fst (CachedDynamoRepository_get r k (clear w)) = length (promises w)"
    by (simp add: get_miss_world [OF none])
  from get_miss(3) [OF none] show "calls (snd (CachedDynamoRepository_get r k (clear w)))
     = calls w @ [(length (promises w), GetItem (tableName (config r)) k)]"
    by (simp add: clear_def)
qed

lemma installInCache_other_entry:
  assumes "\<not> reads_entry_of r key (GetItem t k')"
  shows "getFromCache r key (installInCache r k' e w) = getFromCache r key w"
proof (cases "attr key (hashKey r) = attr k' (hashKey r)")
  case True
  with assms have "attr_opt key (rangeKey r) \<noteq> attr_opt k' (rangeKey r)"
    by auto
  with True show ?thesis
    by (cases "cache w (attr k' (hashKey r))")
      (simp_all add: installInCache_def new_promise_def getFromCache_def Let_def)
next
  case False
  then show ?thesis
    by (cases "cache w (attr k' (hashKey r))")
      (simp_all add: installInCache_def new_promise_def getFromCache_def Let_def)
qed

lemma addToCacheByKey_keeps_entry:
  assumes "getFromCache r key w = Some p" "promise_state w p \<noteq> Fulfilled None"
  shows "getFromCache r key (snd (addToCacheByKey r k' offered w)) = Some p"
proof (cases "reads_entry_of r key (GetItem [] k')")
  case True
  then have "getFromCache r k' w = Some p"
    using assms(1) by (simp only: getFromCache_same_entry)
  then show ?thesis
    using assms
    by (cases "promise_state w p")
      (auto simp: addToCacheByKey_def addToCacheByKey_resume_def getFromCache_emit split: option.splits)
next
  case False
  note other = installInCache_other_entry [OF False]
  show ?thesis
  proof (cases "getFromCache r k' w")
    case None
    then show ?thesis using assms(1) by (simp add: addToCacheByKey_def addToCacheByKey_resume_def other)
  next
    case (Some q)
    then show ?thesis
      using assms(1)
      by (cases "promise_state w q")
        (auto simp: addToCacheByKey_def addToCacheByKey_resume_def getFromCache_emit other split: option.splits)
  qed
qed

lemma promise_state_get:
  assumes "promise_state w p \<noteq> Pending"
  shows "promise_state (snd (CachedDynamoRepository_get r k' w)) p = promise_state w p"
proof (cases "getFromCache r k' w")
  case (Some q)
  then show ?thesis by (simp add: get_hit)
next
  case None
  from assms have "p < length (promises w)"
    by (auto simp: promise_state_def split: if_splits)
  then show ?thesis
    by (simp add: get_miss(2) [OF None] promise_state_def nth_append)
qed

lemma promise_state_wake: "promise_state (wake_flushes q w) p = promise_state w p"
  by (simp add: promise_state_def wake_flushes_def)

lemma promise_state_respond:
  assumes "promise_state w p \<noteq> Pending"
  shows "promise_state (respond r q resp w) p = promise_state w p"
proof (cases "q = p")
  case True
  with assms show ?thesis by (simp add: respond_def)
next
  case False
  then show ?thesis
    by (simp add: respond_def promise_state_wake continue_other)
qed

lemma promise_state_run:
  "promise_state w p \<noteq> Pending \<Longrightarrow> promise_state (run r steps w) p = promise_state w p"
  unfolding run_def
proof (induction steps arbitrary: w)
  case Nil
  then show ?case by simp
next
  case (Cons s steps)
  have "promise_state (run_step r w s) p = promise_state w p"
    using Cons.prems by (cases s) (simp_all add: promise_state_get promise_state_respond)
  with Cons show ?case by simp
qed













lemma list_all_remove: "list_all P xs \<Longrightarrow> list_all P (take i xs @ drop (Suc i) xs)"
  by (auto simp: list_all_iff dest: in_set_takeD in_set_dropD)














lemma respond_failure_rejects:
  assumes "promise_state w p = Pending" "p < length (promises w)" "promise_owner w p \<noteq> NoTask"
  shows "promise_state (respond r p (Failure er) w) p = Rejected er"
  using assms by (simp add: respond_def promise_state_wake continue_failure)

text \<open>
  C10. When the store fails the point read that a \<open>get\<close> of an uncached key has started,
  the promise in the cache is rejected with the store's error and stays in the cache:
  every later \<open>get\<close> of the key gives this rejected promise and leaves the state as it
  is (no call on the store), and \<open>addToCacheByKey\<close> for the key throws the error without
  replacing the entry. After \<open>clear\<close> the next \<open>get\<close> makes a new promise and a new point
  read.
\<close>

theorem failed_point_read_is_memoized:
  "getFromCache r k w = None \<and> CachedDynamoRepository_get r k w = (p, wg) \<longrightarrow>
     promise_state (respond r p (Failure er) wg) p = Rejected er
     \<and> CachedDynamoRepository_get r k (run r steps (respond r p (Failure er) wg))
         = (p, run r steps (respond r p (Failure er) wg))
     \<and> promise_state (run r steps (respond r p (Failure er) wg)) p = Rejected er
     \<and> addToCacheByKey r k offered (run r steps (respond r p (Failure er) wg))
         = (Thrown er, run r steps (respond r p (Failure er) wg))
     \<and> fst (CachedDynamoRepository_get r k (clear (run r steps (respond r p (Failure er) wg))))
         = length (promises (run r steps (respond r p (Failure er) wg)))
     \<and> calls (snd (CachedDynamoRepository_get r k (clear (run r steps (respond r p (Failure er) wg)))))
         = calls (run r steps (respond r p (Failure er) wg))
           @ [(length (promises (run r steps (respond r p (Failure er) wg))),
               GetItem (tableName (config r)) k)]"
proof (intro impI)
  assume h: "getFromCache r k w = None \<and> CachedDynamoRepository_get r k w = (p, wg)"
  then have none: "getFromCache r k w = None" and g: "CachedDynamoRepository_get r k w = (p, wg)"
    by simp_all
  let ?wf = "respond r p (Failure er) wg"
  let ?wl = "run r steps ?wf"
  from get_miss_world [OF none] g have p: "p = length (promises w)"
    and pr: "promises wg = promises w @ [\<lparr>pstate = Pending, owner = GetTask k\<rparr>]"
    by auto
  from get_miss(4) [OF none] g have entry: "getFromCache r k wg = Some p"
    using p by simp
  have "promise_state wg p = Pending" "p < length (promises wg)" "promise_owner wg p \<noteq> NoTask"
    using p pr by (simp_all add: promise_state_def promise_owner_def)
  then have rej: "promise_state ?wf p = Rejected er"
    by (rule respond_failure_rejects)
  then have rej': "promise_state ?wl p = Rejected er"
    by (simp add: promise_state_run)
  have "getFromCache r k ?wf = Some p"
    using entry by (simp add: respond_getFromCache)
  then have later: "getFromCache r k ?wl = Some p"
    by (rule run_keeps_entry)
  have add: "addToCacheByKey r k offered ?wl = (Thrown er, ?wl)"
    using later rej' by (simp add: addToCacheByKey_def addToCacheByKey_resume_def)
  show "promise_state ?wf p = Rejected er
     \<and> CachedDynamoRepository_get r k ?wl = (p, ?wl)
     \<and> promise_state ?wl p = Rejected er
     \<and> addToCacheByKey r k offered ?wl = (Thrown er, ?wl)
     \<and> fst (CachedDynamoRepository_get r k (clear ?wl)) = length (promises ?wl)
     \<and> calls (snd (CachedDynamoRepository_get r k (clear ?wl)))
         = calls ?wl @ [(length (promises ?wl), GetItem (tableName (config r)) k)]"
    using rej get_hit [OF later] rej' add get_after_clear [of r k ?wl]
    by simp
qed

theorem failed_point_read_is_memoized_witness:
  "getFromCache plain_repository entity_key empty_world = None
   \<and> CachedDynamoRepository_get plain_repository entity_key empty_world = (0, world_reading)
   \<and> promise_state (respond plain_repository 0 (Failure boom) world_reading) 0 = Rejected boom
   \<and> CachedDynamoRepository_get plain_repository entity_key
        (run plain_repository [Get entity_key, Respond 0 (Success None)]
           (respond plain_repository 0 (Failure boom) world_reading))
       = (0, respond plain_repository 0 (Failure boom) world_reading)
   \<and> calls (respond plain_repository 0 (Failure boom) world_reading)
       = [(0, GetItem ''tableName'' entity_key)]
   \<and> fst (CachedDynamoRepository_get plain_repository entity_key
             (clear (respond plain_repository 0 (Failure boom) world_reading))) = 1"
  using failed_point_read_is_memoized
      [where r = plain_repository and k = entity_key and w = empty_world and p = 0
         and wg = world_reading and er = boom and offered = None
         and steps = "[Get entity_key, Respond 0 (Success None)]"]
    failed_point_read_is_memoized
      [where r = plain_repository and k = entity_key and w = empty_world and p = 0
         and wg = world_reading and er = boom and offered = None and steps = "[]"]
  by (simp add: world_reading_eq run_def machine_defs tracker_fixture_defs)

end
